theory Spec2Isabelle
  imports Main "HOL-Library.AList" "HOL-Library.Word"
begin

section \<open>Values\<close>

text \<open>
  The service of \<^verbatim>\<open>src/index.js\<close> receives JSON bodies and keeps one JSON file per
  report. A JavaScript string is a sequence of code units; here a code unit is a
  \<^typ>\<open>char\<close>, so the strings of the model are the strings whose code units are below 256
  (the accented a of the Spanish messages is code unit \<open>0xE1\<close>).

  A number is an IEEE 754 double: a sign, eleven bits of exponent, fifty-two bits of
  fraction. The program never computes with a number of a body; it tests it for being
  falsy (\<^verbatim>\<open>!x\<close>, \<^verbatim>\<open>x || null\<close>: zero of either sign, NaN) and prints it with
  \<^verbatim>\<open>JSON.stringify\<close>. \<^verbatim>\<open>JSON.parse\<close> reads a literal too large for a double, such as
  \<^verbatim>\<open>1e400\<close>, as Infinity.
\<close>

datatype double = Double (negative: bool) (exponent: "11 word") (fraction: "52 word")

definition is_zero :: "double \<Rightarrow> bool" where
  "is_zero d = (exponent d = 0 \<and> fraction d = 0)"

definition is_nan :: "double \<Rightarrow> bool" where
  "is_nan d = (exponent d = 2047 \<and> fraction d \<noteq> 0)"

definition is_finite :: "double \<Rightarrow> bool" where
  "is_finite d = (exponent d \<noteq> 2047)"

definition plus_zero :: double where
  "plus_zero = Double False 0 0"

definition minus_zero :: double where
  "minus_zero = Double True 0 0"

definition one :: double where
  "one = Double False 1023 0"

definition infinity :: double where
  "infinity = Double False 2047 0"

text \<open>An object is the list of its properties in the order \<^verbatim>\<open>JSON.stringify\<close> prints them.\<close>

datatype json =
    JNull
  | JBool bool
  | JNum double
  | JStr string
  | JArr "json list"
  | JObj "(string \<times> json) list"

text \<open>A value that may be \<^verbatim>\<open>undefined\<close> (a property the body does not have) is an option.\<close>

fun truthy :: "json \<Rightarrow> bool" where
  "truthy JNull = False"
| "truthy (JBool b) = b"
| "truthy (JNum d) = (\<not> is_zero d \<and> \<not> is_nan d)"
| "truthy (JStr s) = (s \<noteq> [])"
| "truthy (JArr xs) = True"
| "truthy (JObj ps) = True"

text \<open>\<^verbatim>\<open>!x\<close> for a value that may be undefined.\<close>

fun falsy :: "json option \<Rightarrow> bool" where
  "falsy None = True"
| "falsy (Some v) = (\<not> truthy v)"

text \<open>
  The value that the text \<^verbatim>\<open>JSON.stringify\<close> prints for a value parses to. A number that
  is not finite is printed as \<^verbatim>\<open>null\<close>, a zero of either sign as \<^verbatim>\<open>0\<close>; every other
  number is printed with the digits that read back as the same double.
\<close>

primrec printed :: "json \<Rightarrow> json" where
  "printed JNull = JNull"
| "printed (JBool b) = JBool b"
| "printed (JNum d) = (if is_finite d then (if is_zero d then JNum plus_zero else JNum d) else JNull)"
| "printed (JStr s) = JStr s"
| "printed (JArr xs) = JArr (map printed xs)"
| "printed (JObj ps) = JObj (map (map_prod id printed) ps)"

text \<open>Errors are values. Every error object carries its \<^verbatim>\<open>message\<close>.\<close>

datatype exn =
    Error string
  | TypeError string
  | SyntaxError string
  | SystemError string

fun message :: "exn \<Rightarrow> string" where
  "message (Error m) = m"
| "message (TypeError m) = m"
| "message (SyntaxError m) = m"
| "message (SystemError m) = m"

text \<open>\<^verbatim>\<open>String.prototype.split\<close> with a separator of one code unit.\<close>

fun split_on :: "char \<Rightarrow> string \<Rightarrow> string list" where
  "split_on c [] = [[]]"
| "split_on c (x # xs) =
     (if x = c then [] # split_on c xs
      else (case split_on c xs of
              [] \<Rightarrow> [[x]]
            | y # ys \<Rightarrow> (x # y) # ys))"

section \<open>The world outside the program\<close>

type_synonym bytes = "8 word list"

text \<open>
  A file is represented by the value \<^verbatim>\<open>JSON.parse\<close> gives for its text
  (\<^verbatim>\<open>JSON.stringify\<close> writes a text that parses back to what it printed), or, when
  \<^verbatim>\<open>JSON.parse\<close> rejects its text, by its bytes.
\<close>

datatype content = JsonText json | Unparseable bytes

text \<open>
  The file system is the one of a POSIX host. A path is absolute and normalised: the list
  of its segments from the root. The files are listed in the order \<^verbatim>\<open>readdir\<close> reports
  them. Every call into the environment (file system, clock, random numbers, identifiers)
  happens at a \<open>tick\<close>, which then advances. A request is served as a whole: the steps
  of two requests do not interleave.
\<close>

type_synonym path = "string list"

record world =
  dirs :: "path list"
  files :: "(path \<times> content) list"
  tick :: nat

text \<open>
  What the environment answers at each tick: whether a file-system call fails there and
  with which message, the clock in milliseconds, \<^verbatim>\<open>Math.floor(Math.random() * 10000)\<close>,
  the identifier \<^verbatim>\<open>uuidv4()\<close> returns. The working directory of the process,
  \<^verbatim>\<open>Date.prototype.toISOString\<close>, \<^verbatim>\<open>Buffer.from(_, 'base64')\<close> (which returns a buffer
  for every string; the buffer is represented as the file that holds it), the wording of
  the engine's TypeError and SyntaxError are the platform's and are parameters as well; so
  is the engine's comparison \<^verbatim>\<open>v < n\<close> of a string or an array with a number, which
  first converts the string to a number, and the array to a string (and throws when it
  cannot).
\<close>

record env =
  fault :: "nat \<Rightarrow> bool"
  sys_message :: "nat \<Rightarrow> string"
  clock :: "nat \<Rightarrow> nat"
  random :: "nat \<Rightarrow> nat"
  uuid :: "nat \<Rightarrow> string"
  cwd :: path
  toISOString :: "nat \<Rightarrow> string"
  base64 :: "string \<Rightarrow> content"
  type_error :: "json option \<Rightarrow> string"
  syntax_error :: string
  text_less :: "string \<Rightarrow> nat \<Rightarrow> bool"
  array_less :: "json list \<Rightarrow> nat \<Rightarrow> exn + bool"

text \<open>An asynchronous computation: it ends with a value or a thrown error, in a new world.\<close>

type_synonym 'a io = "world \<Rightarrow> (exn + 'a) \<times> world"

definition return_io :: "'a \<Rightarrow> 'a io" where
  "return_io a w = (Inr a, w)"

definition throw :: "exn \<Rightarrow> 'a io" where
  "throw e w = (Inl e, w)"

definition bind_io :: "'a io \<Rightarrow> ('a \<Rightarrow> 'b io) \<Rightarrow> 'b io" where
  "bind_io m f w = (case m w of (Inl e, w') \<Rightarrow> (Inl e, w') | (Inr a, w') \<Rightarrow> f a w')"

definition advance :: "world \<Rightarrow> world" where
  "advance w = w\<lparr>tick := Suc (tick w)\<rparr>"

definition sys_error :: "env \<Rightarrow> world \<Rightarrow> exn" where
  "sys_error e w = SystemError (sys_message e (tick w))"

subsection \<open>Clock, random numbers, identifiers\<close>

definition date_now :: "env \<Rightarrow> nat io" where
  "date_now e w = (Inr (clock e (tick w)), advance w)"

definition math_random_10000 :: "env \<Rightarrow> nat io" where
  "math_random_10000 e w = (Inr (random e (tick w) mod 10000), advance w)"

definition uuidv4 :: "env \<Rightarrow> string io" where
  "uuidv4 e w = (Inr (uuid e (tick w)), advance w)"

definition new_date_iso :: "env \<Rightarrow> string io" where
  "new_date_iso e w = (Inr (toISOString e (clock e (tick w))), advance w)"

subsection \<open>Paths\<close>

text \<open>Lines 12 and 13.\<close>

definition REPORTS_DIR :: "env \<Rightarrow> path" where
  "REPORTS_DIR e = cwd e @ [''reports'']"

definition UPLOADS_DIR :: "env \<Rightarrow> path" where
  "UPLOADS_DIR e = cwd e @ [''uploads'']"

text \<open>
  \<^verbatim>\<open>path.join(dir, name)\<close> for a normalised absolute \<open>dir\<close>: the name is cut at every
  \<^verbatim>\<open>/\<close>; an empty segment and \<^verbatim>\<open>.\<close> are skipped, \<^verbatim>\<open>..\<close> goes up one directory (and
  stays at the root), any other segment goes down.
\<close>

fun resolve :: "path \<Rightarrow> string list \<Rightarrow> path" where
  "resolve p [] = p"
| "resolve p (seg # segs) =
     (if seg = [] \<or> seg = ''.'' then resolve p segs
      else if seg = ''..'' then resolve (butlast p) segs
      else resolve (p @ [seg]) segs)"

definition path_join :: "path \<Rightarrow> string \<Rightarrow> path" where
  "path_join dir name = resolve dir (split_on CHR ''/'' name)"

subsection \<open>File system calls\<close>

text \<open>
  \<^verbatim>\<open>fs.mkdir(dir, { recursive: true })\<close> creates the directory and those above it that
  are absent. A file is written into a directory that exists, and read where it exists;
  \<^verbatim>\<open>fs.access\<close> finds a file or a directory; \<^verbatim>\<open>fs.readdir\<close> names the files and the
  directories directly inside a directory. A call can also fail for reasons the model
  does not hold (a disk that is full, a name the file system refuses, a directory where a
  file is to be written): that is a fault of the environment at the tick of the call. A
  call that fails changes nothing on disk.
\<close>

fun prefixes :: "path \<Rightarrow> path list" where
  "prefixes [] = [[]]"
| "prefixes (seg # segs) = [] # map ((#) seg) (prefixes segs)"

definition mkdir :: "env \<Rightarrow> path \<Rightarrow> unit io" where
  "mkdir e dir w =
     (if fault e (tick w) then (Inl (sys_error e w), advance w)
      else (Inr (), advance (w\<lparr>dirs := dirs w @ filter (\<lambda>p. p \<notin> set (dirs w)) (prefixes dir)\<rparr>)))"

definition writeFile :: "env \<Rightarrow> path \<Rightarrow> content \<Rightarrow> unit io" where
  "writeFile e p data w =
     (if p = [] \<or> butlast p \<notin> set (dirs w) \<or> fault e (tick w)
      then (Inl (sys_error e w), advance w)
      else (Inr (), advance (w\<lparr>files := AList.update p data (files w)\<rparr>)))"

definition readFile :: "env \<Rightarrow> path \<Rightarrow> content io" where
  "readFile e p w =
     (case map_of (files w) p of
        None \<Rightarrow> (Inl (sys_error e w), advance w)
      | Some data \<Rightarrow>
          if fault e (tick w) then (Inl (sys_error e w), advance w)
          else (Inr data, advance w))"

definition access :: "env \<Rightarrow> path \<Rightarrow> unit io" where
  "access e p w =
     (if (map_of (files w) p = None \<and> p \<notin> set (dirs w)) \<or> fault e (tick w)
      then (Inl (sys_error e w), advance w)
      else (Inr (), advance w))"

text \<open>The entries directly inside a directory.\<close>

definition child_of :: "path \<Rightarrow> path \<Rightarrow> bool" where
  "child_of dir p = (p \<noteq> [] \<and> butlast p = dir)"

definition names :: "path \<Rightarrow> world \<Rightarrow> string list" where
  "names dir w = map last (filter (child_of dir) (map fst (files w) @ dirs w))"

definition readdir :: "env \<Rightarrow> path \<Rightarrow> string list io" where
  "readdir e dir w =
     (if dir \<notin> set (dirs w) \<or> fault e (tick w) then (Inl (sys_error e w), advance w)
      else (Inr (names dir w), advance w))"

subsection \<open>JSON text\<close>

definition JSON_stringify :: "json \<Rightarrow> content" where
  "JSON_stringify v = JsonText (printed v)"

fun JSON_parse :: "env \<Rightarrow> content \<Rightarrow> json io" where
  "JSON_parse e (JsonText v) = return_io v"
| "JSON_parse e (Unparseable b) = throw (SyntaxError (syntax_error e))"

section \<open>The attachment decoder: \<^verbatim>\<open>saveBase64Image\<close>\<close>

text \<open>
  In a regular expression without flags \<^verbatim>\<open>.\<close> matches every code unit but a line
  terminator (LF, CR; U+2028 and U+2029 are not code units of the model).
\<close>

definition line_terminator :: "char \<Rightarrow> bool" where
  "line_terminator c = (c = CHR 0x0A \<or> c = CHR 0x0D)"

definition dots :: "string \<Rightarrow> bool" where
  "dots s = (filter line_terminator s = [])"

text \<open>
  \<^verbatim>\<open>/^data:(.+);base64,(.+)$/\<close> after the prefix \<^verbatim>\<open>data:\<close>. With \<open>i\<close> code units in
  the first group, the match goes through when what follows is \<^verbatim>\<open>;base64,\<close> and then one
  or more \<^verbatim>\<open>.\<close> up to the end of the input. The first group is greedy: the matcher
  tries the longest run of \<^verbatim>\<open>.\<close> first and gives back one code unit at a time, down
  to one.
\<close>

definition goes_through :: "string \<Rightarrow> nat \<Rightarrow> bool" where
  "goes_through rest i =
     (take 8 (drop i rest) = '';base64,'' \<and> drop 8 (drop i rest) \<noteq> [] \<and>
      dots (drop 8 (drop i rest)))"

fun backtrack :: "string \<Rightarrow> nat \<Rightarrow> (string \<times> string) option" where
  "backtrack rest 0 = None"
| "backtrack rest (Suc i) =
     (if goes_through rest (Suc i)
      then Some (take (Suc i) rest, drop 8 (drop (Suc i) rest))
      else backtrack rest i)"

definition match_data_uri :: "string \<Rightarrow> (string \<times> string) option" where
  "match_data_uri s =
     (if take 5 s = ''data:''
      then (let rest = drop 5 s in
            backtrack rest (length (takeWhile (\<lambda>c. \<not> line_terminator c) rest)))
      else None)"

text \<open>\<^verbatim>\<open>a[1]\<close>: the second element, or undefined.\<close>

fun second :: "'a list \<Rightarrow> 'a option" where
  "second (x # y # ys) = Some y"
| "second xs = None"

text \<open>A value inside a template literal: undefined prints as \<^verbatim>\<open>undefined\<close>.\<close>

fun template_text :: "string option \<Rightarrow> string" where
  "template_text None = ''undefined''"
| "template_text (Some s) = s"

text \<open>The decimal digits of a natural number, as a template literal prints it.\<close>

definition digit :: "nat \<Rightarrow> char" where
  "digit n = ''0123456789'' ! n"

fun decimal :: "nat \<Rightarrow> string" where
  "decimal n = (if n < 10 then [digit n] else decimal (n div 10) @ [digit (n mod 10)])"

declare decimal.simps [simp del]

definition file_name :: "string \<Rightarrow> nat \<Rightarrow> nat \<Rightarrow> string option \<Rightarrow> string" where
  "file_name prefix now rnd extension =
     prefix @ ''-'' @ decimal now @ ''-'' @ decimal rnd @ ''.'' @ template_text extension"

text \<open>
  Lines 23 to 37. A value that is not a string has no \<^verbatim>\<open>match\<close> method: the call throws
  a TypeError before anything else happens.
\<close>

definition saveBase64Image :: "env \<Rightarrow> json option \<Rightarrow> string \<Rightarrow> string io" where
  "saveBase64Image e base64String prefix =
     (case base64String of
        Some (JStr s) \<Rightarrow>
          (case match_data_uri s of
             None \<Rightarrow> throw (Error ''Invalid base64 string format'')
           | Some (mimeType, base64Data) \<Rightarrow>
               (let extension = second (split_on CHR ''/'' mimeType);
                    buffer = base64 e base64Data
                in bind_io (date_now e) (\<lambda>now.
                   bind_io (math_random_10000 e) (\<lambda>rnd.
                   bind_io (writeFile e (path_join (UPLOADS_DIR e) (file_name prefix now rnd extension))
                              buffer) (\<lambda>_.
                   return_io (''/uploads/'' @ file_name prefix now rnd extension))))))
      | _ \<Rightarrow> throw (TypeError (type_error e base64String)))"

section \<open>\<^verbatim>\<open>POST /reports\<close>\<close>

text \<open>The destructured body: each property is any JSON value, or undefined.\<close>

record submission =
  ownerName :: "json option"
  phoneNumber :: "json option"
  licensePlate :: "json option"
  faultDescription :: "json option"
  location :: "json option"
  photos :: "json option"
  ownerSignature :: "json option"
  technicianSignature :: "json option"

text \<open>\<^verbatim>\<open>res.status(code).json(value)\<close>: the client receives what \<^verbatim>\<open>JSON.stringify\<close> prints.\<close>

record response =
  code :: nat
  body :: json

definition res_json :: "nat \<Rightarrow> json \<Rightarrow> response" where
  "res_json c v = \<lparr>code = c, body = printed v\<rparr>"

definition error_body :: "string \<Rightarrow> json" where
  "error_body m = JObj [(''error'', JStr m)]"

definition ownerName_msg :: string where
  "ownerName_msg = ''ownerName inv'' @ [CHR 0xE1] @ ''lido''"

definition phoneNumber_msg :: string where
  "phoneNumber_msg = ''phoneNumber requerido''"

definition licensePlate_msg :: string where
  "licensePlate_msg = ''licensePlate inv'' @ [CHR 0xE1] @ ''lido''"

definition faultDescription_msg :: string where
  "faultDescription_msg = ''faultDescription inv'' @ [CHR 0xE1] @ ''lido''"

definition ownerSignature_msg :: string where
  "ownerSignature_msg = ''ownerSignature requerida''"

definition technicianSignature_msg :: string where
  "technicianSignature_msg = ''technicianSignature requerida''"

text \<open>
  \<^verbatim>\<open>d < n\<close> for a double and a natural number. NaN is less than nothing, minus
  Infinity and every negative number are less than \<open>n\<close>; a positive number has the
  value \<^verbatim>\<open>(2^52 + fraction) * 2^(exponent - 1075)\<close>, or \<^verbatim>\<open>fraction * 2^(-1074)\<close>
  when the exponent is zero.
\<close>

definition number_less :: "double \<Rightarrow> nat \<Rightarrow> bool" where
  "number_less d n =
     (if is_nan d then False
      else if \<not> is_finite d then negative d
      else if is_zero d then 0 < n
      else if negative d then True
      else if exponent d = 0 then unat (fraction d) < n * 2 ^ 1074
      else if 1075 \<le> unat (exponent d)
        then (2 ^ 52 + unat (fraction d)) * 2 ^ (unat (exponent d) - 1075) < n
      else 2 ^ 52 + unat (fraction d) < n * 2 ^ (1075 - unat (exponent d)))"

text \<open>
  \<^verbatim>\<open>v < n\<close> for a JSON value: the value is converted to a number. Null is 0, false 0,
  true 1. An object is first converted to a primitive value: an object that has a
  property \<^verbatim>\<open>toString\<close> of its own (which is no function) cannot be converted, and the
  comparison throws; any other object becomes \<^verbatim>\<open>[object Object]\<close>, which is no number,
  and the comparison is false.
\<close>

fun less_than :: "env \<Rightarrow> json \<Rightarrow> nat \<Rightarrow> exn + bool" where
  "less_than e JNull n = Inr (0 < n)"
| "less_than e (JBool b) n = Inr ((if b then 1 else 0) < n)"
| "less_than e (JNum d) n = Inr (number_less d n)"
| "less_than e (JStr s) n = Inr (text_less e s n)"
| "less_than e (JArr xs) n = array_less e xs n"
| "less_than e (JObj ps) n =
     (if map_of ps ''toString'' = None then Inr False
      else Inl (TypeError (type_error e (Some (JObj ps)))))"

text \<open>
  \<^verbatim>\<open>x.length < n\<close> for a truthy \<open>x\<close>. A string has its number of code units, an array
  its number of elements. A boolean and a number have no \<^verbatim>\<open>length\<close>, nor has an object
  without a property of that name: \<^verbatim>\<open>undefined < n\<close> is false. On an object with a
  property \<^verbatim>\<open>length\<close> the value of the property is compared with \<open>n\<close>.
\<close>

fun length_less :: "env \<Rightarrow> json \<Rightarrow> nat \<Rightarrow> exn + bool" where
  "length_less e (JStr s) n = Inr (length s < n)"
| "length_less e (JArr xs) n = Inr (length xs < n)"
| "length_less e (JObj ps) n =
     (case map_of ps ''length'' of None \<Rightarrow> Inr False | Some v \<Rightarrow> less_than e v n)"
| "length_less e (JBool b) n = Inr False"
| "length_less e (JNum d) n = Inr False"
| "length_less e JNull n = Inl (TypeError (type_error e (Some JNull)))"

text \<open>
  \<^verbatim>\<open>if (!x || x.length < n) throw new Error(msg)\<close> and \<^verbatim>\<open>if (!x) throw new Error(msg)\<close>:
  what the statement throws, if anything.
\<close>

definition check_length :: "env \<Rightarrow> json option \<Rightarrow> nat \<Rightarrow> string \<Rightarrow> exn option" where
  "check_length e x n msg =
     (case x of
        None \<Rightarrow> Some (Error msg)
      | Some v \<Rightarrow>
          if \<not> truthy v then Some (Error msg)
          else (case length_less e v n of
                  Inl err \<Rightarrow> Some err
                | Inr short \<Rightarrow> if short then Some (Error msg) else None))"

definition check_present :: "json option \<Rightarrow> string \<Rightarrow> exn option" where
  "check_present x msg = (if falsy x then Some (Error msg) else None)"

text \<open>Lines 53 to 58: the first statement that throws ends the validation.\<close>

definition validate :: "env \<Rightarrow> submission \<Rightarrow> exn option" where
  "validate e s =
     (case check_length e (ownerName s) 2 ownerName_msg of
        Some err \<Rightarrow> Some err
      | None \<Rightarrow>
     (case check_present (phoneNumber s) phoneNumber_msg of
        Some err \<Rightarrow> Some err
      | None \<Rightarrow>
     (case check_length e (licensePlate s) 3 licensePlate_msg of
        Some err \<Rightarrow> Some err
      | None \<Rightarrow>
     (case check_length e (faultDescription s) 10 faultDescription_msg of
        Some err \<Rightarrow> Some err
      | None \<Rightarrow>
     (case check_present (ownerSignature s) ownerSignature_msg of
        Some err \<Rightarrow> Some err
      | None \<Rightarrow> check_present (technicianSignature s) technicianSignature_msg)))))"

text \<open>Lines 17 to 20.\<close>

definition ensureDirs :: "env \<Rightarrow> unit io" where
  "ensureDirs e = bind_io (mkdir e (REPORTS_DIR e)) (\<lambda>_. mkdir e (UPLOADS_DIR e))"

text \<open>Lines 64 to 70: the loop over the photos, pushing each reference.\<close>

fun save_photos :: "env \<Rightarrow> json list \<Rightarrow> string list \<Rightarrow> string list io" where
  "save_photos e [] photoFiles = return_io photoFiles"
| "save_photos e (photoBase64 # rest) photoFiles =
     bind_io (saveBase64Image e (Some photoBase64) ''photo'') (\<lambda>file.
     save_photos e rest (photoFiles @ [file]))"

text \<open>\<^verbatim>\<open>x || null\<close>.\<close>

fun or_null :: "json option \<Rightarrow> json" where
  "or_null None = JNull"
| "or_null (Some v) = (if truthy v then v else JNull)"

text \<open>
  A shorthand property of the object literal: the value of the variable, which
  \<^verbatim>\<open>JSON.stringify\<close> leaves out when it is undefined.
\<close>

fun property :: "string \<Rightarrow> json option \<Rightarrow> (string \<times> json) list" where
  "property k None = []"
| "property k (Some v) = [(k, v)]"

text \<open>Lines 80 to 92.\<close>

definition reportData :: "string \<Rightarrow> submission \<Rightarrow> string list \<Rightarrow> string \<Rightarrow> string \<Rightarrow> string \<Rightarrow> json" where
  "reportData reportId s photoFiles ownerSignFile technicianSignFile createdAt =
     JObj ([(''id'', JStr reportId)] @
           property ''ownerName'' (ownerName s) @
           property ''phoneNumber'' (phoneNumber s) @
           property ''licensePlate'' (licensePlate s) @
           property ''faultDescription'' (faultDescription s) @
           [(''location'', or_null (location s)),
            (''photos'', JArr (map JStr photoFiles)),
            (''ownerSignature'', JStr ownerSignFile),
            (''technicianSignature'', JStr technicianSignFile),
            (''createdAt'', JStr createdAt),
            (''status'', JStr ''pending'')])"

text \<open>The \<^verbatim>\<open>try\<close> block of lines 40 to 98; its value is the report's identifier.\<close>

definition create_report :: "env \<Rightarrow> submission \<Rightarrow> string io" where
  "create_report e s =
     (case validate e s of
        Some err \<Rightarrow> throw err
      | None \<Rightarrow>
          bind_io (ensureDirs e) (\<lambda>_.
          bind_io (case photos s of
                     Some (JArr ps) \<Rightarrow> save_photos e ps []
                   | _ \<Rightarrow> return_io []) (\<lambda>photoFiles.
          bind_io (saveBase64Image e (ownerSignature s) ''ownerSign'') (\<lambda>ownerSignFile.
          bind_io (saveBase64Image e (technicianSignature s) ''techSign'') (\<lambda>technicianSignFile.
          bind_io (uuidv4 e) (\<lambda>reportId.
          bind_io (new_date_iso e) (\<lambda>createdAt.
          bind_io (writeFile e (path_join (REPORTS_DIR e) (reportId @ ''.json''))
                     (JSON_stringify (reportData reportId s photoFiles ownerSignFile
                                        technicianSignFile createdAt))) (\<lambda>_.
          return_io reportId))))))))"

text \<open>The handler: 201 with the identifier, or 400 with the message of whatever was thrown.\<close>

definition post_reports :: "env \<Rightarrow> submission \<Rightarrow> world \<Rightarrow> response \<times> world" where
  "post_reports e s w =
     (case create_report e s w of
        (Inr reportId, w') \<Rightarrow> (res_json 201 (JObj [(''reportId'', JStr reportId)]), w')
      | (Inl err, w') \<Rightarrow> (res_json 400 (error_body (message err)), w'))"

section \<open>\<^verbatim>\<open>GET /reports\<close>\<close>

definition endsWith :: "string \<Rightarrow> string \<Rightarrow> bool" where
  "endsWith s suffix =
     (length suffix \<le> length s \<and> drop (length s - length suffix) s = suffix)"

text \<open>
  \<^verbatim>\<open>report.status\<close>: reading a property of null throws; a boolean, a number, a string
  and an array have no such property.
\<close>

fun get_status :: "env \<Rightarrow> json \<Rightarrow> json option io" where
  "get_status e JNull = throw (TypeError (type_error e (Some JNull)))"
| "get_status e (JObj ps) = return_io (map_of ps ''status'')"
| "get_status e v = return_io None"

text \<open>
  \<^verbatim>\<open>report.status = v\<close> in a module (strict mode): it throws on null and on a primitive
  value; on an array it adds a property that \<^verbatim>\<open>JSON.stringify\<close> does not print; on an
  object it overwrites the property in place, or appends it.
\<close>

fun set_status :: "env \<Rightarrow> json \<Rightarrow> json \<Rightarrow> json io" where
  "set_status e (JObj ps) v = return_io (JObj (AList.update ''status'' v ps))"
| "set_status e (JArr xs) v = return_io (JArr xs)"
| "set_status e r v = throw (TypeError (type_error e (Some r)))"

text \<open>Line 115.\<close>

definition backfill :: "env \<Rightarrow> json \<Rightarrow> json io" where
  "backfill e report =
     bind_io (get_status e report) (\<lambda>st.
       if falsy st then set_status e report (JStr ''pending'') else return_io report)"

text \<open>Lines 109 to 119.\<close>

fun read_all :: "env \<Rightarrow> string list \<Rightarrow> json list \<Rightarrow> json list io" where
  "read_all e [] rs = return_io rs"
| "read_all e (file # others) rs =
     (if endsWith file ''.json''
      then bind_io (readFile e (path_join (REPORTS_DIR e) file)) (\<lambda>content.
           bind_io (JSON_parse e content) (\<lambda>parsed.
           bind_io (backfill e parsed) (\<lambda>report.
           read_all e others (rs @ [report]))))
      else read_all e others rs)"

definition list_reports :: "env \<Rightarrow> json list io" where
  "list_reports e = bind_io (readdir e (REPORTS_DIR e)) (\<lambda>listing. read_all e listing [])"

definition get_reports :: "env \<Rightarrow> world \<Rightarrow> response \<times> world" where
  "get_reports e w =
     (case list_reports e w of
        (Inr rs, w') \<Rightarrow> (res_json 200 (JArr rs), w')
      | (Inl err, w') \<Rightarrow> (res_json 500 (error_body ''Error reading reports''), w'))"

section \<open>\<^verbatim>\<open>PUT /reports/:id/status\<close>\<close>

definition allowed :: "json list" where
  "allowed = [JStr ''pending'', JStr ''attended'']"

definition invalid_status_msg :: string where
  "invalid_status_msg = ''Estado inv'' @ [CHR 0xE1] @ ''lido''"

definition update_failed_msg :: string where
  "update_failed_msg = ''Error actualizando el estado del reporte''"

text \<open>
  The \<^verbatim>\<open>try\<close> block of lines 129 to 155; its value is the response it sends. The
  identifier is the segment of the route after URL decoding: any string, which may hold
  \<^verbatim>\<open>/\<close> and \<^verbatim>\<open>..\<close>. The status is checked first
  (\<^verbatim>\<open>['pending', 'attended'].includes(status)\<close>; an undefined status is not included),
  then the path is joined and looked for (any failure of \<^verbatim>\<open>fs.access\<close> is a 404), then
  the file is read, changed and written back.
\<close>

definition invalid_status :: response where
  "invalid_status = res_json 400 (error_body invalid_status_msg)"

definition not_found :: response where
  "not_found = res_json 404 (error_body ''Reporte no encontrado'')"

definition update_status :: "env \<Rightarrow> string \<Rightarrow> json option \<Rightarrow> response io" where
  "update_status e reportId status =
     (case status of
        None \<Rightarrow> return_io invalid_status
      | Some v \<Rightarrow>
          if v \<notin> set allowed then return_io invalid_status
          else (let reportPath = path_join (REPORTS_DIR e) (reportId @ ''.json'') in
            (\<lambda>w.
            case access e reportPath w of
              (Inl err, w') \<Rightarrow> (Inr not_found, w')
            | (Inr u, w') \<Rightarrow>
                bind_io (readFile e reportPath) (\<lambda>content.
                bind_io (JSON_parse e content) (\<lambda>parsed.
                bind_io (set_status e parsed v) (\<lambda>updated.
                bind_io (writeFile e reportPath (JSON_stringify updated)) (\<lambda>_.
                return_io (res_json 200 updated))))) w')))"

definition put_status :: "env \<Rightarrow> string \<Rightarrow> json option \<Rightarrow> world \<Rightarrow> response \<times> world" where
  "put_status e reportId status w =
     (case update_status e reportId status w of
        (Inr r, w') \<Rightarrow> (r, w')
      | (Inl err, w') \<Rightarrow> (res_json 500 (error_body update_failed_msg), w'))"

section \<open>Vocabulary of the properties\<close>

subsection \<open>The pattern of the decoder\<close>

text \<open>
  The language of \<^verbatim>\<open>/^data:(.+);base64,(.+)$/\<close>, stated without the matcher: \<^verbatim>\<open>data:\<close>,
  a mime type of one or more \<^verbatim>\<open>.\<close>, \<^verbatim>\<open>;base64,\<close>, a payload of one or more \<^verbatim>\<open>.\<close>.
\<close>

definition data_uri_pattern :: "string \<Rightarrow> bool" where
  "data_uri_pattern s =
     (\<exists>m p. s = ''data:'' @ m @ '';base64,'' @ p \<and> m \<noteq> [] \<and> p \<noteq> [] \<and> dots m \<and> dots p)"

text \<open>A string that does not match the pattern.\<close>

definition malformed :: "json option \<Rightarrow> bool" where
  "malformed x = (\<exists>str. x = Some (JStr str) \<and> \<not> data_uri_pattern str)"

text \<open>A value that is a string.\<close>

fun is_text :: "json option \<Rightarrow> bool" where
  "is_text (Some (JStr str)) = True"
| "is_text x = False"

text \<open>A value the decoder accepts: a string on which the matcher succeeds.\<close>

definition decodable :: "json option \<Rightarrow> bool" where
  "decodable x = (case x of Some (JStr s) \<Rightarrow> match_data_uri s \<noteq> None | _ \<Rightarrow> False)"

text \<open>The extension the decoder gives the file of an accepted value.\<close>

definition extension_of :: "json option \<Rightarrow> string option" where
  "extension_of x =
     (case x of
        Some (JStr s) \<Rightarrow>
          (case match_data_uri s of
             Some (mimeType, base64Data) \<Rightarrow> second (split_on CHR ''/'' mimeType)
           | None \<Rightarrow> None)
      | _ \<Rightarrow> None)"

text \<open>The text after the first \<^verbatim>\<open>/\<close> of a mime type.\<close>

definition text_after_slash :: "string \<Rightarrow> string" where
  "text_after_slash m = tl (dropWhile (\<lambda>c. c \<noteq> CHR ''/'') m)"

text \<open>
  The reference the decoder returns for a value when it starts at tick \<open>t\<close>: the clock is
  read at \<open>t\<close>, the random number at the next tick, the file is written at the one after.
\<close>

definition reference :: "env \<Rightarrow> string \<Rightarrow> nat \<Rightarrow> json option \<Rightarrow> string" where
  "reference e prefix t x =
     ''/uploads/'' @ file_name prefix (clock e t) (random e (Suc t) mod 10000) (extension_of x)"

subsection \<open>Names and files\<close>

text \<open>
  A name that is one path segment: \<^verbatim>\<open>path.join(dir, name)\<close> is then the entry \<open>name\<close> of
  \<open>dir\<close>. The names a file system gives its entries are of this kind.
\<close>

definition segment :: "string \<Rightarrow> bool" where
  "segment n = (n \<noteq> [] \<and> n \<noteq> ''.'' \<and> n \<noteq> ''..'' \<and> CHR ''/'' \<notin> set n)"

text \<open>The file with a given name in the reports directory, and in the uploads directory.\<close>

definition report_file :: "env \<Rightarrow> world \<Rightarrow> string \<Rightarrow> content option" where
  "report_file e w name = map_of (files w) (REPORTS_DIR e @ [name])"

definition upload_file :: "env \<Rightarrow> world \<Rightarrow> string \<Rightarrow> content option" where
  "upload_file e w name = map_of (files w) (UPLOADS_DIR e @ [name])"

text \<open>Two worlds with the same reports directory: the same names, the same files.\<close>

definition same_reports :: "env \<Rightarrow> world \<Rightarrow> world \<Rightarrow> bool" where
  "same_reports e w w' =
     (names (REPORTS_DIR e) w' = names (REPORTS_DIR e) w \<and>
      (\<forall>name. report_file e w' name = report_file e w name))"

subsection \<open>Submissions\<close>

text \<open>The photos the loop runs over: the entries of an array, none for any other value.\<close>

definition photo_list :: "submission \<Rightarrow> json list" where
  "photo_list s = (case photos s of Some (JArr ps) \<Rightarrow> ps | _ \<Rightarrow> [])"

text \<open>The references of the photos, the first of them decoded from tick \<open>t\<close> on.\<close>

fun photo_references :: "env \<Rightarrow> nat \<Rightarrow> json list \<Rightarrow> string list" where
  "photo_references e t [] = []"
| "photo_references e t (p # ps) = reference e ''photo'' t (Some p) # photo_references e (t + 3) ps"

text \<open>The attachments of a submission in the order the handler decodes them.\<close>

definition attachments :: "submission \<Rightarrow> json option list" where
  "attachments s = map Some (photo_list s) @ [ownerSignature s, technicianSignature s]"

text \<open>A valid submission passes the rules and all its attachments are accepted.\<close>

definition valid_submission :: "env \<Rightarrow> submission \<Rightarrow> bool" where
  "valid_submission e s =
     (validate e s = None \<and> list_all (\<lambda>p. decodable (Some p)) (photo_list s) \<and>
      decodable (ownerSignature s) \<and> decodable (technicianSignature s))"

text \<open>
  The required-field rules as the specification lists them, each with the name of its
  field, and the first of them a submission violates. A field has a length of at least
  \<open>n\<close> when it is a string of that length; it is non-empty when it is a string with
  at least one code unit.
\<close>

definition at_least :: "nat \<Rightarrow> json option \<Rightarrow> bool" where
  "at_least n x = (case x of Some (JStr str) \<Rightarrow> n \<le> length str | _ \<Rightarrow> False)"

definition rule_ownerName :: "submission \<Rightarrow> bool" where
  "rule_ownerName s = at_least 2 (ownerName s)"

definition rule_phoneNumber :: "submission \<Rightarrow> bool" where
  "rule_phoneNumber s = at_least 1 (phoneNumber s)"

definition rule_licensePlate :: "submission \<Rightarrow> bool" where
  "rule_licensePlate s = at_least 3 (licensePlate s)"

definition rule_faultDescription :: "submission \<Rightarrow> bool" where
  "rule_faultDescription s = at_least 10 (faultDescription s)"

definition rule_ownerSignature :: "submission \<Rightarrow> bool" where
  "rule_ownerSignature s = at_least 1 (ownerSignature s)"

definition rule_technicianSignature :: "submission \<Rightarrow> bool" where
  "rule_technicianSignature s = at_least 1 (technicianSignature s)"

definition required_fields :: "(string \<times> (submission \<Rightarrow> bool)) list" where
  "required_fields =
     [(''ownerName'', rule_ownerName),
      (''phoneNumber'', rule_phoneNumber),
      (''licensePlate'', rule_licensePlate),
      (''faultDescription'', rule_faultDescription),
      (''ownerSignature'', rule_ownerSignature),
      (''technicianSignature'', rule_technicianSignature)]"

definition first_violation :: "submission \<Rightarrow> string option" where
  "first_violation s = map_option fst (List.find (\<lambda>r. \<not> snd r s) required_fields)"

text \<open>A field that is a string where it is present: a string, null, or absent.\<close>

fun text_or_absent :: "json option \<Rightarrow> bool" where
  "text_or_absent None = True"
| "text_or_absent (Some JNull) = True"
| "text_or_absent (Some (JStr str)) = True"
| "text_or_absent x = False"

definition text_fields :: "submission \<Rightarrow> bool" where
  "text_fields s =
     list_all text_or_absent
       [ownerName s, phoneNumber s, licensePlate s, faultDescription s,
        ownerSignature s, technicianSignature s]"

subsection \<open>Stored reports\<close>

text \<open>What is stored under a report's identifier, field by field.\<close>

definition stored_field :: "env \<Rightarrow> world \<Rightarrow> string \<Rightarrow> string \<Rightarrow> json option" where
  "stored_field e w reportId k =
     (case report_file e w (reportId @ ''.json'') of
        Some (JsonText (JObj ps)) \<Rightarrow> map_of ps k
      | _ \<Rightarrow> None)"

text \<open>
  What a listing shows for a stored object: the object itself, with \<^verbatim>\<open>status\<close> set to
  pending when it is missing or falsy.
\<close>

definition backfilled :: "(string \<times> json) list \<Rightarrow> (string \<times> json) list" where
  "backfilled ps =
     (if falsy (map_of ps ''status'') then AList.update ''status'' (JStr ''pending'') ps else ps)"

fun shown :: "content option \<Rightarrow> json" where
  "shown (Some (JsonText (JObj ps))) = JObj (backfilled ps)"
| "shown c = JNull"

text \<open>
  A store is readable when each entry of the reports directory whose name ends in
  \<^verbatim>\<open>.json\<close> is a file that holds a JSON object (and its name is a path segment).
\<close>

fun is_record :: "content option \<Rightarrow> bool" where
  "is_record (Some (JsonText (JObj ps))) = True"
| "is_record c = False"

definition readable :: "env \<Rightarrow> world \<Rightarrow> bool" where
  "readable e w =
     list_all (\<lambda>name. if endsWith name ''.json'' then segment name \<and> is_record (report_file e w name)
                      else True)
       (names (REPORTS_DIR e) w)"

text \<open>
  The invariant of the store: each entry of the reports directory whose name ends in
  \<^verbatim>\<open>.json\<close> is a file that holds an object whose \<^verbatim>\<open>status\<close> is missing (or falsy),
  pending or attended.
\<close>

definition status_ok :: "(string \<times> json) list \<Rightarrow> bool" where
  "status_ok ps = (falsy (map_of ps ''status'') \<or> map_of ps ''status'' = Some (JStr ''pending'')
     \<or> map_of ps ''status'' = Some (JStr ''attended''))"

fun record_ok :: "content option \<Rightarrow> bool" where
  "record_ok (Some (JsonText (JObj ps))) = status_ok ps"
| "record_ok c = False"

definition store_ok :: "env \<Rightarrow> world \<Rightarrow> bool" where
  "store_ok e w =
     list_all (\<lambda>name. if endsWith name ''.json'' then segment name \<and> record_ok (report_file e w name)
                      else True)
       (names (REPORTS_DIR e) w)"


definition valid_status :: "json option \<Rightarrow> bool" where
  "valid_status st = (st = Some (JStr ''pending'') \<or> st = Some (JStr ''attended''))"

subsection \<open>Requests in sequence\<close>

text \<open>The three requests, and a sequence of them served one after the other.\<close>

datatype request = Create submission | List | Update string "json option"





text \<open>A property of the world that a computation keeps, however it ends.\<close>

definition preserves :: "(world \<Rightarrow> bool) \<Rightarrow> 'a io \<Rightarrow> bool" where
  "preserves P m = (\<forall>w r w'. P w \<longrightarrow> m w = (r, w') \<longrightarrow> P w')"

subsection \<open>Example inputs\<close>

text \<open>
  An environment in which no call fails, and two in which the call at tick 0, or at tick
  18, fails. The process runs in \<^verbatim>\<open>/app\<close>. Of \<^verbatim>\<open>Buffer.from(_, 'base64')\<close> the examples
  need four values: \<^verbatim>\<open>WzFd\<close> is the text \<^verbatim>\<open>[1]\<close>, \<^verbatim>\<open>QUJD\<close> the text \<^verbatim>\<open>ABC\<close>,
  \<^verbatim>\<open>AAAA\<close> three zero bytes, and \<^verbatim>\<open>!!!!\<close>, which has no base64 digit, no byte at all.
  No example compares a string or an array with a number.
\<close>

definition env_ok :: env where
  "env_ok = \<lparr>fault = (\<lambda>t. False), sys_message = (\<lambda>t. ''EIO: i/o error''),
     clock = (\<lambda>t. 1000 + t), random = (\<lambda>t. 7 * t), uuid = (\<lambda>t. ''id-'' @ decimal t),
     cwd = [''app''],
     toISOString = (\<lambda>n. ''T'' @ decimal n),
     base64 = (\<lambda>s. if s = ''WzFd'' then JsonText (JArr [JNum one])
                    else if s = ''QUJD'' then Unparseable [65, 66, 67]
                    else if s = ''AAAA'' then Unparseable [0, 0, 0]
                    else Unparseable []),
     type_error = (\<lambda>x. ''base64String.match is not a function''),
     syntax_error = ''Unexpected token'',
     text_less = (\<lambda>s n. False), array_less = (\<lambda>xs n. Inr False)\<rparr>"

definition env_fault0 :: env where
  "env_fault0 = env_ok\<lparr>fault := (\<lambda>t. t = 0)\<rparr>"

definition env_fault18 :: env where
  "env_fault18 = env_ok\<lparr>fault := (\<lambda>t. t = 18)\<rparr>"

text \<open>
  Worlds: the working directory with nothing in it; the same with the two directories,
  empty; the world after \<open>sub_ok\<close> has been created in the first; a store with one report
  of an older kind, without \<^verbatim>\<open>status\<close>.
\<close>

definition world_empty :: world where
  "world_empty = \<lparr>dirs = [[], [''app'']], files = [], tick = 0\<rparr>"

definition world_dirs :: world where
  "world_dirs =
     \<lparr>dirs = [[], [''app''], [''app'', ''reports''], [''app'', ''uploads'']], files = [], tick = 0\<rparr>"

text \<open>
  A valid submission with a zero \<^verbatim>\<open>location\<close>, a photo whose payload is not base64 and
  a signature whose mime type has no \<^verbatim>\<open>/\<close>; the same with a signature that lacks the
  \<^verbatim>\<open>data:\<close> prefix; with \<^verbatim>\<open>true\<close> for the owner's name; with the \<^verbatim>\<open>location\<close> that
  \<^verbatim>\<open>1e400\<close> is read as; with one photo, of mime type \<^verbatim>\<open>x/json\<close>, whose payload is the
  text \<^verbatim>\<open>[1]\<close>.
\<close>

definition sub_ok :: submission where
  "sub_ok = \<lparr>ownerName = Some (JStr ''Al''), phoneNumber = Some (JStr ''5''),
     licensePlate = Some (JStr ''ABC''), faultDescription = Some (JStr ''0123456789''),
     location = Some (JNum plus_zero),
     photos = Some (JArr [JStr ''data:image/png;base64,AAAA'', JStr ''data:image/jpeg;base64,!!!!'']),
     ownerSignature = Some (JStr ''data:foo;base64,AAAA''),
     technicianSignature = Some (JStr ''data:image/png;base64,QUJD'')\<rparr>"

definition sub_bad_signature :: submission where
  "sub_bad_signature = sub_ok\<lparr>ownerSignature := Some (JStr ''image/png;base64,AAAA'')\<rparr>"

definition sub_true_name :: submission where
  "sub_true_name = sub_ok\<lparr>ownerName := Some (JBool True)\<rparr>"

definition sub_infinite :: submission where
  "sub_infinite = sub_ok\<lparr>location := Some (JNum infinity)\<rparr>"


definition world_one :: world where
  "world_one = snd (post_reports env_ok sub_ok world_empty)"

text \<open>The record stored for \<open>sub_ok\<close>.\<close>

definition record_one :: "(string \<times> json) list" where
  "record_one =
     [(''id'', JStr ''id-14''), (''ownerName'', JStr ''Al''), (''phoneNumber'', JStr ''5''),
      (''licensePlate'', JStr ''ABC''), (''faultDescription'', JStr ''0123456789''),
      (''location'', JNull),
      (''photos'', JArr [JStr ''/uploads/photo-1002-21.png'', JStr ''/uploads/photo-1005-42.jpeg'']),
      (''ownerSignature'', JStr ''/uploads/ownerSign-1008-63.undefined''),
      (''technicianSignature'', JStr ''/uploads/techSign-1011-84.png''),
      (''createdAt'', JStr ''T1015''), (''status'', JStr ''pending'')]"

definition world_legacy :: world where
  "world_legacy =
     \<lparr>dirs = [[], [''app''], [''app'', ''reports''], [''app'', ''uploads'']],
      files = [([''app'', ''reports'', ''old.json''], JsonText (JObj [(''id'', JStr ''old'')]))],
      tick = 0\<rparr>"




section \<open>The matcher and the pattern\<close>

lemma backtrack_Some:
  "backtrack rest k = Some (m, p) \<Longrightarrow>
     goes_through rest (length m) \<and> m = take (length m) rest \<and> p = drop 8 (drop (length m) rest) \<and>
     0 < length m \<and> length m \<le> k \<and> length m < length rest"
proof (induction k)
  case 0 then show ?case by simp
next
  case (Suc i)
  show ?case
  proof (cases "goes_through rest (Suc i)")
    case True
    with Suc.prems have m: "m = take (Suc i) rest" and p: "p = drop 8 (drop (Suc i) rest)"
      by simp_all
    from True have len: "Suc i < length rest"
      by (cases "Suc i < length rest") (auto simp: goes_through_def)
    with m have lm: "length m = Suc i" by simp
    with True m p len show ?thesis by simp
  next
    case False
    with Suc.prems have "backtrack rest i = Some (m, p)" by simp
    from Suc.IH[OF this] show ?thesis by auto
  qed
qed

lemma backtrack_None:
  "backtrack rest k = None \<Longrightarrow> 0 < i \<Longrightarrow> i \<le> k \<Longrightarrow> \<not> goes_through rest i"
proof (induction k)
  case 0 then show ?case by simp
next
  case (Suc j)
  show ?case
  proof (cases "i = Suc j")
    case True
    with Suc.prems(1) show ?thesis by (auto split: if_splits)
  next
    case False
    with Suc.prems have "i \<le> j" by simp
    moreover from Suc.prems(1) have "backtrack rest j = None" by (auto split: if_splits)
    ultimately show ?thesis using Suc.IH Suc.prems(2) by blast
  qed
qed

lemma goes_through_split:
  "goes_through rest i \<Longrightarrow> rest = take i rest @ '';base64,'' @ drop 8 (drop i rest)"
proof -
  assume g: "goes_through rest i"
  have "rest = take i rest @ take 8 (drop i rest) @ drop 8 (drop i rest)"
    by (simp only: append_take_drop_id)
  with g show ?thesis by (simp add: goes_through_def)
qed

lemma dots_append: "dots (a @ b) \<longleftrightarrow> dots a \<and> dots b"
  by (auto simp: dots_def)

lemma dots_takeWhile_length:
  "dots m \<Longrightarrow> length m \<le> length (takeWhile (\<lambda>c. \<not> line_terminator c) (m @ r))"
  by (induction m) (auto simp: dots_def split: if_splits)

lemma dots_take_takeWhile:
  "i \<le> length (takeWhile (\<lambda>c. \<not> line_terminator c) rest) \<Longrightarrow> dots (take i rest)"
proof (induction rest arbitrary: i)
  case Nil then show ?case by (simp add: dots_def)
next
  case (Cons a rest)
  then show ?case by (cases i) (auto simp: dots_def split: if_splits)
qed

lemma match_data_uri_Some:
  assumes "match_data_uri s = Some (m, p)"
  shows "s = ''data:'' @ m @ '';base64,'' @ p \<and> m \<noteq> [] \<and> p \<noteq> [] \<and> dots m \<and> dots p"
proof -
  from assms have pre: "take 5 s = ''data:''"
    by (auto simp: match_data_uri_def split: if_splits)
  from assms pre have bt: "backtrack (drop 5 s) (length (takeWhile (\<lambda>c. \<not> line_terminator c) (drop 5 s))) = Some (m, p)"
    by (simp add: match_data_uri_def Let_def)
  note b = backtrack_Some[OF bt]
  from b have g: "goes_through (drop 5 s) (length m)" by simp
  from goes_through_split[OF g] b have r: "drop 5 s = m @ '';base64,'' @ p" by simp
  have "s = take 5 s @ drop 5 s" by simp
  with pre r have "s = ''data:'' @ m @ '';base64,'' @ p" by metis
  moreover from b have "dots m" using dots_take_takeWhile[of "length m" "drop 5 s"] by auto
  moreover from g b have "p \<noteq> [] \<and> dots p" by (simp add: goes_through_def)
  moreover from b have "m \<noteq> []" by auto
  ultimately show ?thesis by simp
qed

lemma match_data_uri_None:
  assumes "match_data_uri s = None"
  shows "\<not> data_uri_pattern s"
proof
  assume "data_uri_pattern s"
  then obtain m p where s: "s = ''data:'' @ m @ '';base64,'' @ p" and m: "m \<noteq> []" and p: "p \<noteq> []"
    and dm: "dots m" and dp: "dots p"
    by (auto simp: data_uri_pattern_def)
  let ?rest = "m @ '';base64,'' @ p"
  from s have pre: "take 5 s = ''data:''" and rest: "drop 5 s = ?rest" by simp_all
  from assms pre rest have bt: "backtrack ?rest (length (takeWhile (\<lambda>c. \<not> line_terminator c) ?rest)) = None"
    by (simp add: match_data_uri_def Let_def)
  have le: "length m \<le> length (takeWhile (\<lambda>c. \<not> line_terminator c) ?rest)"
    using dm by (rule dots_takeWhile_length)
  from m have pos: "0 < length m" by simp
  from p dp have "goes_through ?rest (length m)" by (simp add: goes_through_def)
  with backtrack_None[OF bt pos le] show False by simp
qed

lemma match_data_uri_pattern: "match_data_uri s = None \<longleftrightarrow> \<not> data_uri_pattern s"
proof
  assume "match_data_uri s = None" then show "\<not> data_uri_pattern s" by (rule match_data_uri_None)
next
  assume n: "\<not> data_uri_pattern s"
  show "match_data_uri s = None"
  proof (cases "match_data_uri s")
    case None then show ?thesis .
  next
    case (Some mp)
    obtain m p where "mp = (m, p)" by (cases mp)
    with Some match_data_uri_Some[of s m p] n show ?thesis
      unfolding data_uri_pattern_def by blast
  qed
qed

section \<open>Running computations step by step\<close>

lemma bind_io_Inr: "m w = (Inr a, w1) \<Longrightarrow> bind_io m f w = f a w1"
  by (simp add: bind_io_def)

lemma bind_io_Inl: "m w = (Inl x, w1) \<Longrightarrow> bind_io m f w = (Inl x, w1)"
  by (simp add: bind_io_def)

lemma bind_io_eq_Inr:
  "bind_io m f w = (Inr b, w') \<longleftrightarrow> (\<exists>a w1. m w = (Inr a, w1) \<and> f a w1 = (Inr b, w'))"
  by (auto simp: bind_io_def split: prod.splits sum.splits)

lemma bind_io_eq_Inl:
  "bind_io m f w = (Inl x, w') \<longleftrightarrow>
     (m w = (Inl x, w') \<or> (\<exists>a w1. m w = (Inr a, w1) \<and> f a w1 = (Inl x, w')))"
  by (auto simp: bind_io_def split: prod.splits sum.splits)

lemma return_io_eq: "return_io a w = (r, w') \<longleftrightarrow> r = Inr a \<and> w' = w"
  by (auto simp: return_io_def)

lemma throw_eq: "throw x w = (r, w') \<longleftrightarrow> r = Inl x \<and> w' = w"
  by (auto simp: throw_def)

section \<open>Splitting the mime type\<close>

lemma split_on_not_Nil: "split_on c m \<noteq> []"
  by (induction m) (auto split: list.splits)

lemma split_on_no_sep: "c \<notin> set m \<Longrightarrow> split_on c m = [m]"
  by (induction m) auto

lemma split_on_append:
  "c \<notin> set a \<Longrightarrow> split_on c (a @ c # b) = a # split_on c b"
  by (induction a) auto

lemma second_Cons: "second (x # ys) = (case ys of [] \<Rightarrow> None | y # zs \<Rightarrow> Some y)"
  by (cases ys) auto

lemma hd_split_on: "hd (split_on c b) = takeWhile (\<lambda>x. x \<noteq> c) b"
  by (induction b) (auto split: list.splits simp: split_on_not_Nil)

lemma second_split_on_none: "c \<notin> set m \<Longrightarrow> second (split_on c m) = None"
  by (simp add: split_on_no_sep)

lemma second_split_on_some:
  "c \<notin> set a \<Longrightarrow> second (split_on c (a @ c # b)) = Some (takeWhile (\<lambda>x. x \<noteq> c) b)"
  using hd_split_on[of c b] split_on_not_Nil[of c b]
  by (cases "split_on c b") (auto simp: split_on_append second_Cons)

section \<open>What a computation keeps\<close>

lemma preservesD: "preserves P m \<Longrightarrow> P w \<Longrightarrow> m w = (r, w') \<Longrightarrow> P w'"
  unfolding preserves_def by blast

lemma preserves_bind:
  assumes m: "preserves P m" and f: "\<And>a. preserves P (f a)"
  shows "preserves P (bind_io m f)"
  unfolding preserves_def
proof (intro allI impI)
  fix w r w'
  assume P: "P w" and b: "bind_io m f w = (r, w')"
  obtain r1 w1 where mw: "m w = (r1, w1)" by (cases "m w")
  from preservesD[OF m P mw] have P1: "P w1" .
  show "P w'"
  proof (cases r1)
    case (Inl x)
    with b mw have "w' = w1" by (simp add: bind_io_def)
    with P1 show ?thesis by simp
  next
    case (Inr a)
    with b mw have "f a w1 = (r, w')" by (simp add: bind_io_def)
    from preservesD[OF f P1 this] show ?thesis .
  qed
qed



section \<open>Printing values\<close>

lemma printed_idem: "printed (printed v) = printed v"
  by (induction v) (auto simp: is_finite_def is_zero_def plus_zero_def)

lemma printed_error_body [simp]: "printed (error_body m) = error_body m"
  by (simp add: error_body_def)


lemma map_of_printed: "map_of (map (map_prod id printed) ps) k = map_option printed (map_of ps k)"
  by (induction ps) auto


lemma update_printed:
  "printed v = v \<Longrightarrow>
   map (map_prod id printed) (AList.update k v ps) = AList.update k v (map (map_prod id printed) ps)"
  by (induction ps) auto

section \<open>Joining paths\<close>

lemma split_on_parts: "x \<in> set (split_on c m) \<Longrightarrow> c \<notin> set x"
proof (induction m arbitrary: x)
  case Nil then show ?case by simp
next
  case (Cons a m)
  show ?case
  proof (cases "a = c")
    case True with Cons show ?thesis by auto
  next
    case False
    obtain y ys where s: "split_on c m = y # ys" using split_on_not_Nil[of c m] by (cases "split_on c m") auto
    with Cons.prems False have "x = a # y \<or> x \<in> set ys" by simp
    with Cons.IH[of y] Cons.IH[of x] s False show ?thesis by auto
  qed
qed

lemma path_join_segment: "segment n \<Longrightarrow> path_join d n = d @ [n]"
  by (simp add: path_join_def segment_def split_on_no_sep)

lemma segment_json: "CHR ''/'' \<notin> set rid \<Longrightarrow> segment (rid @ ''.json'')"
  by (auto simp: segment_def append_eq_Cons_conv)


lemma child_of_append [simp]: "child_of d (d @ [n])"
  by (simp add: child_of_def)

lemma child_of_iff: "child_of d p \<longleftrightarrow> p = d @ [last p]"
  by (cases p rule: rev_cases) (auto simp: child_of_def)


section \<open>File names\<close>

lemma digit_not_slash: "k < 10 \<Longrightarrow> digit k \<noteq> CHR ''/''"
  by (auto simp: digit_def less_Suc_eq numeral_eq_Suc)

lemma decimal_no_slash: "CHR ''/'' \<notin> set (decimal n)"
proof (induction n rule: decimal.induct)
  case (1 n)
  show ?case
  proof (cases "n < 10")
    case True
    with digit_not_slash[of n] show ?thesis by (auto simp: decimal.simps[of n])
  next
    case False
    with 1 have "CHR ''/'' \<notin> set (decimal (n div 10))" by simp
    moreover have "digit (n mod 10) \<noteq> CHR ''/''" by (rule digit_not_slash) simp
    ultimately show ?thesis using False by (auto simp: decimal.simps[of n])
  qed
qed

lemma extension_no_slash: "CHR ''/'' \<notin> set (template_text (second (split_on CHR ''/'' m)))"
proof (cases "second (split_on CHR ''/'' m)")
  case None then show ?thesis by simp
next
  case (Some x)
  then have "x \<in> set (split_on CHR ''/'' m)"
    by (cases "split_on CHR ''/'' m" rule: second.cases) auto
  with Some split_on_parts[of x "CHR ''/''" m] show ?thesis by simp
qed

lemma file_name_segment:
  "CHR ''/'' \<notin> set prefix \<Longrightarrow> segment (file_name prefix now rnd (second (split_on CHR ''/'' m)))"
proof -
  assume p: "CHR ''/'' \<notin> set prefix"
  let ?n = "file_name prefix now rnd (second (split_on CHR ''/'' m))"
  have "CHR ''-'' \<in> set ?n" by (simp add: file_name_def)
  then have "?n \<noteq> [] \<and> ?n \<noteq> ''.'' \<and> ?n \<noteq> ''..''" by auto
  moreover have "CHR ''/'' \<notin> set ?n"
    using p decimal_no_slash extension_no_slash[of m] by (simp add: file_name_def)
  ultimately show ?thesis by (simp add: segment_def)
qed

section \<open>The reports directory\<close>

lemma dirs_differ [simp]: "REPORTS_DIR e \<noteq> UPLOADS_DIR e" "UPLOADS_DIR e \<noteq> REPORTS_DIR e"
  by (simp_all add: REPORTS_DIR_def UPLOADS_DIR_def)

lemma upload_not_report [simp]: "\<not> child_of (REPORTS_DIR e) (UPLOADS_DIR e @ [n])"
  by (simp add: child_of_def)

lemma prefixes_length: "q \<in> set (prefixes p) \<Longrightarrow> length q \<le> length p"
  by (induction p arbitrary: q) auto

lemma prefixes_self: "p \<in> set (prefixes p)"
  by (induction p) auto

lemma prefixes_not_child:
  "length p \<le> Suc (length d) \<Longrightarrow> filter (child_of (d @ [x])) (filter P (prefixes p)) = []"
proof -
  assume l: "length p \<le> Suc (length d)"
  { fix q assume "q \<in> set (prefixes p)" and c: "child_of (d @ [x]) q"
    from prefixes_length[OF this(1)] l have "length q \<le> Suc (length d)" by simp
    moreover from c have "length q = Suc (Suc (length d))"
      by (auto simp: child_of_iff[of "d @ [x]" q] dest: arg_cong[where f = length])
    ultimately have False by simp }
  then show ?thesis by (auto simp: filter_empty_conv)
qed

lemma same_reports_refl [simp]: "same_reports e w w"
  by (simp add: same_reports_def)

lemma same_reports_trans: "same_reports e w w1 \<Longrightarrow> same_reports e w1 w2 \<Longrightarrow> same_reports e w w2"
  by (simp add: same_reports_def)

lemma same_reports_tick [simp]: "same_reports e w (w'\<lparr>tick := t\<rparr>) = same_reports e w w'"
  by (simp add: same_reports_def names_def report_file_def)

lemma same_reports_advance [simp]: "same_reports e w (advance w') = same_reports e w w'"
  by (simp add: advance_def)

lemma names_update_other:
  "\<not> child_of d p \<Longrightarrow> names d (w\<lparr>files := AList.update p c (files w)\<rparr>) = names d w"
  by (auto simp: names_def update_keys)

lemma names_update_child:
  "child_of d p \<Longrightarrow> set (names d (w\<lparr>files := AList.update p c (files w)\<rparr>)) = insert (last p) (set (names d w))"
  by (auto simp: names_def update_keys)

lemma names_update_present:
  "map_of (files w) p \<noteq> None \<Longrightarrow> names d (w\<lparr>files := AList.update p c (files w)\<rparr>) = names d w"
  by (auto simp: names_def update_keys map_of_eq_None_iff)

lemma same_reports_write_other:
  "\<not> child_of (REPORTS_DIR e) p \<Longrightarrow> same_reports e w (w\<lparr>files := AList.update p c (files w)\<rparr>)"
  by (auto simp: same_reports_def names_update_other report_file_def update_conv')

lemma same_reports_mkdir:
  "same_reports e w (w\<lparr>dirs := dirs w @ filter P (prefixes (cwd e @ [x]))\<rparr>)"
  using prefixes_not_child[of "cwd e @ [x]" "cwd e" "''reports''" P]
  by (simp add: same_reports_def names_def report_file_def REPORTS_DIR_def)


lemma readable_same: "same_reports e w w' \<Longrightarrow> readable e w' = readable e w"
  by (simp add: same_reports_def readable_def)

section \<open>The decoder on a string\<close>

lemma sbi_match:
  "match_data_uri s = Some (m, p) \<Longrightarrow> UPLOADS_DIR e \<in> set (dirs w) \<Longrightarrow>
   \<not> fault e (Suc (Suc (tick w))) \<Longrightarrow> CHR ''/'' \<notin> set prefix \<Longrightarrow>
   saveBase64Image e (Some (JStr s)) prefix w =
     (Inr (''/uploads/'' @ file_name prefix (clock e (tick w)) (random e (Suc (tick w)) mod 10000)
             (second (split_on CHR ''/'' m))),
      w\<lparr>files := AList.update
             (UPLOADS_DIR e @ [file_name prefix (clock e (tick w)) (random e (Suc (tick w)) mod 10000)
                (second (split_on CHR ''/'' m))]) (base64 e p) (files w),
        tick := Suc (Suc (Suc (tick w)))\<rparr>)"
  by (simp add: saveBase64Image_def bind_io_def date_now_def math_random_10000_def writeFile_def
      return_io_def advance_def Let_def path_join_segment[OF file_name_segment])

lemma sbi_match_fail:
  "match_data_uri s = Some (m, p) \<Longrightarrow> CHR ''/'' \<notin> set prefix \<Longrightarrow>
   UPLOADS_DIR e \<notin> set (dirs w) \<or> fault e (Suc (Suc (tick w))) \<Longrightarrow>
   saveBase64Image e (Some (JStr s)) prefix w =
     (Inl (SystemError (sys_message e (Suc (Suc (tick w))))), w\<lparr>tick := Suc (Suc (Suc (tick w)))\<rparr>)"
  by (auto simp add: saveBase64Image_def bind_io_def date_now_def math_random_10000_def writeFile_def
      return_io_def advance_def Let_def sys_error_def path_join_segment[OF file_name_segment])

lemma sbi_no_match:
  "match_data_uri s = None \<Longrightarrow>
   saveBase64Image e (Some (JStr s)) prefix w = (Inl (Error ''Invalid base64 string format''), w)"
  by (simp add: saveBase64Image_def throw_def)

lemma sbi_not_string:
  "(\<And>s. x \<noteq> Some (JStr s)) \<Longrightarrow>
   saveBase64Image e x prefix w = (Inl (TypeError (type_error e x)), w)"
  by (auto simp add: saveBase64Image_def throw_def split: option.splits json.splits)

section \<open>The decoder in every case, and the loop over the photos\<close>

lemma sbi_cases:
  "(\<exists>s m p. x = Some (JStr s) \<and> match_data_uri s = Some (m, p)) \<or>
   (\<exists>s. x = Some (JStr s) \<and> match_data_uri s = None) \<or> (\<forall>s. x \<noteq> Some (JStr s))"
proof (cases x)
  case None then show ?thesis by simp
next
  case (Some v)
  show ?thesis
  proof (cases v)
    case (JStr s)
    show ?thesis
    proof (cases "match_data_uri s")
      case None with Some JStr show ?thesis by simp
    next
      case (Some mp)
      obtain m p where "mp = (m, p)" by (cases mp)
      with Some \<open>x = Some v\<close> JStr show ?thesis by simp
    qed
  qed (use Some in simp_all)
qed




lemma sbi_Inr:
  assumes "saveBase64Image e x prefix w = (Inr ref, w')"
  shows "decodable x"
proof -
  consider (m) s m p where "x = Some (JStr s)" "match_data_uri s = Some (m, p)"
    | (n) s where "x = Some (JStr s)" "match_data_uri s = None"
    | (t) "\<And>s. x \<noteq> Some (JStr s)"
    using sbi_cases[of x] by blast
  then show ?thesis
  proof cases
    case m then show ?thesis by (simp add: decodable_def)
  next
    case n
    from sbi_no_match[OF n(2), of e prefix w] assms n(1) show ?thesis by simp
  next
    case t
    from sbi_not_string[of x e prefix w] t assms show ?thesis by simp
  qed
qed

lemma save_photos_Inr:
  "save_photos e ps acc w = (Inr refs, w') \<Longrightarrow> list_all (\<lambda>p. decodable (Some p)) ps"
proof (induction ps arbitrary: acc w)
  case Nil show ?case by simp
next
  case (Cons p ps)
  from Cons.prems obtain ref w1 where
    1: "saveBase64Image e (Some p) ''photo'' w = (Inr ref, w1)" and
    2: "save_photos e ps (acc @ [ref]) w1 = (Inr refs, w')"
    unfolding save_photos.simps bind_io_eq_Inr by blast
  from sbi_Inr[OF 1] Cons.IH[OF 2] show ?case by simp
qed

lemma sbi_ok:
  assumes "decodable x" "\<not> fault e (Suc (Suc (tick w)))" "UPLOADS_DIR e \<in> set (dirs w)"
    and "CHR ''/'' \<notin> set prefix"
  shows "\<exists>w'. saveBase64Image e x prefix w = (Inr (reference e prefix (tick w) x), w') \<and>
           same_reports e w w' \<and> dirs w' = dirs w \<and> tick w' = tick w + 3"
proof -
  from assms(1) obtain s m p where x: "x = Some (JStr s)" and mt: "match_data_uri s = Some (m, p)"
    by (auto simp: decodable_def split: option.splits json.splits)
  show ?thesis
    unfolding x sbi_match[OF mt assms(3) assms(2) assms(4)]
    by (simp add: reference_def extension_of_def mt same_reports_write_other)
qed

lemma save_photos_ok:
  assumes "list_all (\<lambda>p. decodable (Some p)) ps" "\<forall>t. \<not> fault e t" "UPLOADS_DIR e \<in> set (dirs w)"
  shows "\<exists>w'. save_photos e ps acc w = (Inr (acc @ photo_references e (tick w) ps), w') \<and>
           same_reports e w w' \<and> dirs w' = dirs w \<and> tick w' = tick w + 3 * length ps"
  using assms
proof (induction ps arbitrary: acc w)
  case Nil
  then show ?case by (simp add: return_io_def)
next
  case (Cons p ps)
  from Cons.prems have dp: "decodable (Some p)" and rest: "list_all (\<lambda>p. decodable (Some p)) ps"
    by simp_all
  from Cons.prems(2) have nf: "\<not> fault e (Suc (Suc (tick w)))" by simp
  have ns: "CHR ''/'' \<notin> set ''photo''" by simp
  from sbi_ok[OF dp nf Cons.prems(3) ns] obtain w1 where
    s1: "saveBase64Image e (Some p) ''photo'' w = (Inr (reference e ''photo'' (tick w) (Some p)), w1)"
    and r1: "same_reports e w w1" and u1: "dirs w1 = dirs w" and t1: "tick w1 = tick w + 3"
    by blast
  from u1 Cons.prems(3) have u1': "UPLOADS_DIR e \<in> set (dirs w1)" by simp
  from Cons.IH[OF rest Cons.prems(2) u1', of "acc @ [reference e ''photo'' (tick w) (Some p)]"]
  obtain w' where
    s2: "save_photos e ps (acc @ [reference e ''photo'' (tick w) (Some p)]) w1 =
           (Inr ((acc @ [reference e ''photo'' (tick w) (Some p)]) @ photo_references e (tick w1) ps), w')"
    and r2: "same_reports e w1 w'" and u2: "dirs w' = dirs w1"
    and t2: "tick w' = tick w1 + 3 * length ps"
    by blast
  from same_reports_trans[OF r1 r2] have r: "same_reports e w w'" .
  show ?case
    using s2 r u1 u2 t1 t2
    by (simp add: bind_io_Inr[where m = "saveBase64Image e (Some p) ''photo''", OF s1])
qed

lemma advance_simps [simp]:
  "files (advance w) = files w" "dirs (advance w) = dirs w" "tick (advance w) = Suc (tick w)"
  by (simp_all add: advance_def)

section \<open>The rules of the validator\<close>

lemmas rule_defs = rule_ownerName_def rule_phoneNumber_def rule_licensePlate_def
  rule_faultDescription_def rule_ownerSignature_def rule_technicianSignature_def

lemmas msg_defs = ownerName_msg_def phoneNumber_msg_def licensePlate_msg_def
  faultDescription_msg_def ownerSignature_msg_def technicianSignature_msg_def

lemma check_length_text:
  "text_or_absent x \<Longrightarrow> 0 < n \<Longrightarrow>
   check_length e x n msg = (if at_least n x then None else Some (Error msg))"
  by (cases x rule: text_or_absent.cases) (auto simp: check_length_def at_least_def)

lemma check_present_text:
  "text_or_absent x \<Longrightarrow> check_present x msg = (if at_least 1 x then None else Some (Error msg))"
  by (cases x rule: text_or_absent.cases) (auto simp: check_present_def at_least_def Suc_le_eq)

lemma validate_first_violation:
  "text_fields s \<Longrightarrow>
   validate e s = (case first_violation s of None \<Rightarrow> None
     | Some f \<Rightarrow> Some (Error (
         if f = ''ownerName'' then ownerName_msg
         else if f = ''phoneNumber'' then phoneNumber_msg
         else if f = ''licensePlate'' then licensePlate_msg
         else if f = ''faultDescription'' then faultDescription_msg
         else if f = ''ownerSignature'' then ownerSignature_msg
         else technicianSignature_msg)))"
  unfolding validate_def first_violation_def required_fields_def rule_defs text_fields_def
  by (simp add: check_length_text check_present_text)

lemma first_violation_cases:
  "first_violation s = None \<or> first_violation s = Some ''ownerName'' \<or> first_violation s = Some ''phoneNumber''
   \<or> first_violation s = Some ''licensePlate'' \<or> first_violation s = Some ''faultDescription''
   \<or> first_violation s = Some ''ownerSignature'' \<or> first_violation s = Some ''technicianSignature''"
  unfolding first_violation_def required_fields_def by simp

lemma post_reports_invalid:
  "validate e s = Some err \<Longrightarrow>
     post_reports e s w = (\<lparr>code = 400, body = error_body (message err)\<rparr>, w)"
  by (simp add: post_reports_def create_report_def throw_def res_json_def)

section \<open>The record of a report\<close>

lemma map_printed_JStr [simp]: "map printed (map JStr xs) = map JStr xs"
  by (induction xs) auto

lemma reportData_fields:
  assumes "printed (reportData rid s pf os ts ca) = JObj ps"
  shows "map_of ps ''id'' = Some (JStr rid)"
    and "map_of ps ''ownerName'' = map_option printed (ownerName s)"
    and "map_of ps ''phoneNumber'' = map_option printed (phoneNumber s)"
    and "map_of ps ''licensePlate'' = map_option printed (licensePlate s)"
    and "map_of ps ''faultDescription'' = map_option printed (faultDescription s)"
    and "map_of ps ''location'' = Some (printed (or_null (location s)))"
    and "map_of ps ''photos'' = Some (JArr (map JStr pf))"
    and "map_of ps ''ownerSignature'' = Some (JStr os)"
    and "map_of ps ''technicianSignature'' = Some (JStr ts)"
    and "map_of ps ''createdAt'' = Some (JStr ca)"
    and "map_of ps ''status'' = Some (JStr ''pending'')"
  using assms unfolding reportData_def
  by (cases "ownerName s"; cases "phoneNumber s"; cases "licensePlate s"; cases "faultDescription s";
      auto)+

lemma printed_reportData_JObj: "\<exists>ps. printed (reportData rid s pf os ts ca) = JObj ps"
  by (simp add: reportData_def)

section \<open>Creating a report when nothing fails\<close>

lemma photos_step:
  "(case photos s of Some (JArr ps) \<Rightarrow> save_photos e ps [] | _ \<Rightarrow> return_io []) =
     save_photos e (photo_list s) []"
  by (simp add: photo_list_def split: option.splits json.splits)

lemma create_report_valid:
  "validate e s = None \<Longrightarrow>
   create_report e s =
     bind_io (ensureDirs e) (\<lambda>_.
     bind_io (save_photos e (photo_list s) []) (\<lambda>photoFiles.
     bind_io (saveBase64Image e (ownerSignature s) ''ownerSign'') (\<lambda>ownerSignFile.
     bind_io (saveBase64Image e (technicianSignature s) ''techSign'') (\<lambda>technicianSignFile.
     bind_io (uuidv4 e) (\<lambda>reportId.
     bind_io (new_date_iso e) (\<lambda>createdAt.
     bind_io (writeFile e (path_join (REPORTS_DIR e) (reportId @ ''.json''))
                (JSON_stringify (reportData reportId s photoFiles ownerSignFile
                                   technicianSignFile createdAt))) (\<lambda>_.
     return_io reportId)))))))"
  by (simp add: create_report_def photos_step)

lemma create_report_invalid:
  "validate e s = Some err \<Longrightarrow> create_report e s w = (Inl err, w)"
  by (simp add: create_report_def throw_def)

lemma mkdir_keeps: "preserves (\<lambda>w'. same_reports e w w' \<and> files w' = F) (mkdir e (cwd e @ [x]))"
  unfolding preserves_def
proof (intro allI impI)
  fix w0 r w' assume P: "same_reports e w w0 \<and> files w0 = F" and m: "mkdir e (cwd e @ [x]) w0 = (r, w')"
  show "same_reports e w w' \<and> files w' = F"
  proof (cases "fault e (tick w0)")
    case True with m P show ?thesis by (auto simp: mkdir_def)
  next
    case False
    with m have w': "w' = advance (w0\<lparr>dirs := dirs w0 @ filter (\<lambda>p. p \<notin> set (dirs w0)) (prefixes (cwd e @ [x]))\<rparr>)"
      by (auto simp: mkdir_def)
    from P same_reports_mkdir[of e w0 "\<lambda>p. p \<notin> set (dirs w0)" x]
    have "same_reports e w (w0\<lparr>dirs := dirs w0 @ filter (\<lambda>p. p \<notin> set (dirs w0)) (prefixes (cwd e @ [x]))\<rparr>)"
      using same_reports_trans by blast
    with P w' show ?thesis by (simp add: advance_def)
  qed
qed

lemma ensureDirs_keeps: "preserves (\<lambda>w'. same_reports e w w' \<and> files w' = F) (ensureDirs e)"
  unfolding ensureDirs_def REPORTS_DIR_def UPLOADS_DIR_def
  by (rule preserves_bind[OF mkdir_keeps]) (rule mkdir_keeps)

lemma mkdir_Inr:
  "mkdir e p w = (Inr u, w') \<Longrightarrow> p \<in> set (dirs w') \<and> set (dirs w) \<subseteq> set (dirs w') \<and> tick w' = Suc (tick w)"
  using prefixes_self[of p] by (auto simp: mkdir_def advance_def split: if_splits)

lemma ensureDirs_Inr:
  assumes "ensureDirs e w = (Inr u, w')"
  shows "REPORTS_DIR e \<in> set (dirs w') \<and> UPLOADS_DIR e \<in> set (dirs w')"
proof -
  from assms obtain u1 w1 where 1: "mkdir e (REPORTS_DIR e) w = (Inr u1, w1)"
    and 2: "mkdir e (UPLOADS_DIR e) w1 = (Inr u, w')"
    unfolding ensureDirs_def bind_io_eq_Inr by blast
  from mkdir_Inr[OF 1] mkdir_Inr[OF 2] show ?thesis by auto
qed

lemma ensureDirs_ok:
  assumes "\<not> fault e (tick w)" "\<not> fault e (Suc (tick w))"
  shows "\<exists>w'. ensureDirs e w = (Inr (), w') \<and> same_reports e w w' \<and> files w' = files w \<and>
           REPORTS_DIR e \<in> set (dirs w') \<and> UPLOADS_DIR e \<in> set (dirs w') \<and> tick w' = Suc (Suc (tick w))"
proof -
  obtain r w' where ed: "ensureDirs e w = (r, w')" by (cases "ensureDirs e w")
  from assms ed have r: "r = Inr ()" and t: "tick w' = Suc (Suc (tick w))"
    by (auto simp: ensureDirs_def bind_io_def mkdir_def advance_def)
  from preservesD[OF ensureDirs_keeps[of e w "files w"] _ ed]
  have "same_reports e w w' \<and> files w' = files w" by simp
  with ensureDirs_Inr[OF ed[unfolded r]] ed r t show ?thesis by simp
qed

lemma create_report_ok:
  fixes e :: env and s :: submission and w :: world
  assumes v: "valid_submission e s" and nf: "\<forall>t. \<not> fault e t"
    and id: "\<forall>t. CHR ''/'' \<notin> set (uuid e t)"
  defines "n \<equiv> length (photo_list s)"
  defines "rid \<equiv> uuid e (tick w + 3 * n + 8)"
  shows "\<exists>w' w6. create_report e s w = (Inr rid, w') \<and>
           same_reports e w w6 \<and> dirs w' = dirs w6 \<and> REPORTS_DIR e \<in> set (dirs w6) \<and>
           files w' = AList.update (REPORTS_DIR e @ [rid @ ''.json''])
             (JsonText (printed (reportData rid s
                (photo_references e (tick w + 2) (photo_list s))
                (reference e ''ownerSign'' (tick w + 3 * n + 2) (ownerSignature s))
                (reference e ''techSign'' (tick w + 3 * n + 5) (technicianSignature s))
                (toISOString e (clock e (tick w + 3 * n + 9))))))
             (files w6) \<and>
           tick w' = tick w + 3 * n + 11"
proof -
  from v have val: "validate e s = None" and dp: "list_all (\<lambda>p. decodable (Some p)) (photo_list s)"
    and d1: "decodable (ownerSignature s)" and d2: "decodable (technicianSignature s)"
    by (simp_all add: valid_submission_def)
  from nf have "\<not> fault e (tick w)" "\<not> fault e (Suc (tick w))" by simp_all
  from ensureDirs_ok[OF this] obtain w1 where
    s1: "ensureDirs e w = (Inr (), w1)" and r1: "same_reports e w w1"
    and rd1: "REPORTS_DIR e \<in> set (dirs w1)" and u1: "UPLOADS_DIR e \<in> set (dirs w1)"
    and t1': "tick w1 = Suc (Suc (tick w))" by blast
  from save_photos_ok[OF dp nf u1, of "[]"] obtain w2 where
    s2: "save_photos e (photo_list s) [] w1 = (Inr (photo_references e (tick w1) (photo_list s)), w2)"
    and r2: "same_reports e w1 w2" and u2: "dirs w2 = dirs w1"
    and t2: "tick w2 = tick w1 + 3 * n"
    by (auto simp: n_def)
  from nf have nf2: "\<not> fault e (Suc (Suc (tick w2)))" by simp
  from u1 u2 have u2': "UPLOADS_DIR e \<in> set (dirs w2)" by simp
  have ns1: "CHR ''/'' \<notin> set ''ownerSign''" and ns2: "CHR ''/'' \<notin> set ''techSign''" by simp_all
  from sbi_ok[OF d1 nf2 u2' ns1] obtain w3 where
    s3: "saveBase64Image e (ownerSignature s) ''ownerSign'' w2 =
           (Inr (reference e ''ownerSign'' (tick w2) (ownerSignature s)), w3)"
    and r3: "same_reports e w2 w3" and u3: "dirs w3 = dirs w2" and t3: "tick w3 = tick w2 + 3"
    by blast
  from nf have nf3: "\<not> fault e (Suc (Suc (tick w3)))" by simp
  from u2' u3 have u3': "UPLOADS_DIR e \<in> set (dirs w3)" by simp
  from sbi_ok[OF d2 nf3 u3' ns2] obtain w4 where
    s4: "saveBase64Image e (technicianSignature s) ''techSign'' w3 =
           (Inr (reference e ''techSign'' (tick w3) (technicianSignature s)), w4)"
    and r4: "same_reports e w3 w4" and u4: "dirs w4 = dirs w3" and t4: "tick w4 = tick w3 + 3"
    by blast
  have t1: "tick w1 = tick w + 2" by (simp add: t1')
  have T4: "tick w4 = tick w + 3 * n + 8" using t1 t2 t3 t4 by simp
  have R4: "same_reports e w w4"
    using r1 r2 r3 r4 same_reports_trans by blast
  have D4: "REPORTS_DIR e \<in> set (dirs w4)" using rd1 u2 u3 u4 by simp
  have T2: "tick w2 = tick w + 3 * n + 2" using t1 t2 by simp
  have T3: "tick w3 = tick w + 3 * n + 5" using t1 t2 t3 by simp
  define ca where "ca = toISOString e (clock e (tick w + 3 * n + 9))"
  define content where "content = JSON_stringify (reportData rid s
      (photo_references e (tick w1) (photo_list s))
      (reference e ''ownerSign'' (tick w2) (ownerSignature s))
      (reference e ''techSign'' (tick w3) (technicianSignature s)) ca)"
  from id have "segment (rid @ ''.json'')" unfolding rid_def by (intro segment_json) simp
  then have pth: "path_join (REPORTS_DIR e) (rid @ ''.json'') = REPORTS_DIR e @ [rid @ ''.json'']"
    by (rule path_join_segment)
  define pth where "pth = REPORTS_DIR e @ [rid @ ''.json'']"
  define w7 where "w7 = w4\<lparr>files := AList.update pth content (files w4),
      tick := tick w + 3 * n + 11\<rparr>"
  have s5: "uuidv4 e w4 = (Inr rid, advance w4)"
    by (simp add: uuidv4_def rid_def T4)
  have t5: "tick (advance w4) = tick w + 3 * n + 9"
    by (simp add: advance_def T4)
  have s6: "new_date_iso e (advance w4) = (Inr ca, advance (advance w4))"
    unfolding new_date_iso_def t5 ca_def ..
  have s7: "writeFile e pth content (advance (advance w4)) = (Inr (), w7)"
    using nf D4 by (simp add: writeFile_def advance_def T4 w7_def pth_def)
  have "create_report e s w = (Inr rid, w7)"
    unfolding create_report_valid[OF val]
    by (simp add: bind_io_def s1 s2 s3 s4 s5 s6 pth s7[unfolded content_def pth_def] return_io_def)
  moreover have "files w7 = AList.update (REPORTS_DIR e @ [rid @ ''.json''])
             (JsonText (printed (reportData rid s
                (photo_references e (tick w + 2) (photo_list s))
                (reference e ''ownerSign'' (tick w + 3 * n + 2) (ownerSignature s))
                (reference e ''techSign'' (tick w + 3 * n + 5) (technicianSignature s))
                (toISOString e (clock e (tick w + 3 * n + 9))))))
             (files w4)"
    by (simp add: w7_def content_def JSON_stringify_def t1 T2 T3 ca_def pth_def)
  moreover have "tick w7 = tick w + 3 * n + 11" and "dirs w7 = dirs w4" by (simp_all add: w7_def)
  ultimately show ?thesis using R4 D4 by blast
qed

section \<open>Reading the reports\<close>

lemma backfill_JObj: "backfill e (JObj ps) w = (Inr (JObj (backfilled ps)), w)"
  by (simp add: backfill_def bind_io_def return_io_def backfilled_def)

lemma backfill_world: "backfill e v w = (r, w') \<Longrightarrow> w' = w"
  by (cases v) (auto simp: backfill_def bind_io_def return_io_def throw_def split: if_splits)

lemma JSON_parse_world: "JSON_parse e c w = (r, w') \<Longrightarrow> w' = w"
  by (cases c) (auto simp: return_io_def throw_def)


lemma readFile_Inr:
  "readFile e p w = (Inr c, w') \<Longrightarrow>
     map_of (files w) p = Some c \<and> \<not> fault e (tick w) \<and> w' = advance w"
  by (auto simp: readFile_def split: option.splits if_splits)

lemma readFile_ok:
  "map_of (files w) p = Some c \<Longrightarrow> \<not> fault e (tick w) \<Longrightarrow> readFile e p w = (Inr c, advance w)"
  by (simp add: readFile_def)

lemma report_file_advance [simp]: "report_file e (advance w) n = report_file e w n"
  by (simp add: report_file_def)

lemma names_advance [simp]: "names d (advance w) = names d w"
  by (simp add: names_def)

lemma report_file_in_names:
  "report_file e w n = Some c \<Longrightarrow> n \<in> set (names (REPORTS_DIR e) w)"
proof -
  assume "report_file e w n = Some c"
  then have "(REPORTS_DIR e @ [n], c) \<in> set (files w)"
    by (simp add: report_file_def map_of_SomeD)
  then have "REPORTS_DIR e @ [n] \<in> set (map fst (files w))" by force
  then have "REPORTS_DIR e @ [n] \<in> set (filter (child_of (REPORTS_DIR e)) (map fst (files w) @ dirs w))"
    by simp
  then have "last (REPORTS_DIR e @ [n]) \<in> set (names (REPORTS_DIR e) w)"
    unfolding names_def set_map by (rule imageI)
  then show ?thesis by simp
qed

lemma read_all_step:
  assumes "read_all e (fname # ns) rs w = (Inr out, w')" "endsWith fname ''.json''"
  shows "\<exists>c parsed report. map_of (files w) (path_join (REPORTS_DIR e) fname) = Some c \<and>
           \<not> fault e (tick w) \<and>
           JSON_parse e c (advance w) = (Inr parsed, advance w) \<and>
           backfill e parsed (advance w) = (Inr report, advance w) \<and>
           read_all e ns (rs @ [report]) (advance w) = (Inr out, w')"
proof -
  from assms obtain c w1 parsed w2 report w3 where
    1: "readFile e (path_join (REPORTS_DIR e) fname) w = (Inr c, w1)"
    and 2: "JSON_parse e c w1 = (Inr parsed, w2)"
    and 3: "backfill e parsed w2 = (Inr report, w3)"
    and 4: "read_all e ns (rs @ [report]) w3 = (Inr out, w')"
    by (simp add: bind_io_eq_Inr) blast
  from readFile_Inr[OF 1] JSON_parse_world[OF 2] backfill_world[OF 3] 2 3 4
  show ?thesis by auto
qed


lemma read_all_no_fault:
  "read_all e ns rs w = (Inr out, w') \<Longrightarrow> tick w \<le> t \<Longrightarrow> t < tick w' \<Longrightarrow> \<not> fault e t"
proof (induction ns arbitrary: rs w)
  case Nil then show ?case by (simp add: return_io_def)
next
  case (Cons fname ns)
  show ?case
  proof (cases "endsWith fname ''.json''")
    case False with Cons show ?thesis by simp
  next
    case True
    from read_all_step[OF Cons.prems(1) True] obtain report where
      nf: "\<not> fault e (tick w)" and
      rest: "read_all e ns (rs @ [report]) (advance w) = (Inr out, w')" by blast
    show ?thesis
    proof (cases "t = tick w")
      case True with nf show ?thesis by simp
    next
      case False
      with Cons.prems(2) have "tick (advance w) \<le> t" by simp
      from Cons.IH[OF rest this Cons.prems(3)] show ?thesis .
    qed
  qed
qed


lemma read_all_ok:
  assumes "\<forall>t. \<not> fault e t"
    and "\<forall>n\<in>set ns. endsWith n ''.json'' \<longrightarrow>
           segment n \<and> (\<exists>ps. report_file e w n = Some (JsonText (JObj ps)))"
  shows "\<exists>w'. read_all e ns rs w =
           (Inr (rs @ map (\<lambda>n. shown (report_file e w n)) (filter (\<lambda>n. endsWith n ''.json'') ns)), w')"
  using assms(2)
proof (induction ns arbitrary: rs w)
  case Nil then show ?case by (simp add: return_io_def)
next
  case (Cons fname ns)
  from Cons.prems have rest: "\<forall>n\<in>set ns. endsWith n ''.json'' \<longrightarrow>
           segment n \<and> (\<exists>ps. report_file e (advance w) n = Some (JsonText (JObj ps)))"
    by simp
  from Cons.prems have rest0: "\<forall>n\<in>set ns. endsWith n ''.json'' \<longrightarrow>
           segment n \<and> (\<exists>ps. report_file e w n = Some (JsonText (JObj ps)))"
    by simp
  show ?case
  proof (cases "endsWith fname ''.json''")
    case False
    with Cons.IH[OF rest0, of rs] show ?thesis by simp
  next
    case True
    with Cons.prems obtain ps where sg: "segment fname"
      and l: "report_file e w fname = Some (JsonText (JObj ps))"
      by auto
    from l have l': "map_of (files w) (path_join (REPORTS_DIR e) fname) = Some (JsonText (JObj ps))"
      by (simp add: report_file_def path_join_segment[OF sg])
    from assms(1) have nf: "\<not> fault e (tick w)" by simp
    from Cons.IH[OF rest, of "rs @ [JObj (backfilled ps)]"] obtain w' where
      "read_all e ns (rs @ [JObj (backfilled ps)]) (advance w) =
         (Inr ((rs @ [JObj (backfilled ps)]) @ map (\<lambda>n. shown (report_file e (advance w) n))
            (filter (\<lambda>n. endsWith n ''.json'') ns)), w')" by blast
    with True l show ?thesis
      by (simp add: bind_io_def readFile_ok[OF l' nf] return_io_def backfill_JObj)
  qed
qed

section \<open>Listing\<close>

lemma readdir_Inr:
  "readdir e d w = (Inr ns, w') \<Longrightarrow>
     \<not> fault e (tick w) \<and> w' = advance w \<and> d \<in> set (dirs w) \<and> ns = names d w"
  by (auto simp: readdir_def split: if_splits)


lemma list_reports_no_fault:
  assumes "list_reports e w = (Inr rs, w')" "tick w \<le> t" "t < tick w'"
  shows "\<not> fault e t"
proof -
  from assms(1) obtain ns w1 where 1: "readdir e (REPORTS_DIR e) w = (Inr ns, w1)"
    and 2: "read_all e ns [] w1 = (Inr rs, w')"
    unfolding list_reports_def bind_io_eq_Inr by blast
  from readdir_Inr[OF 1] have nf: "\<not> fault e (tick w)" and w1: "w1 = advance w" by simp_all
  show ?thesis
  proof (cases "t = tick w")
    case True with nf show ?thesis by simp
  next
    case False
    with assms(2) w1 have "tick w1 \<le> t" by simp
    from read_all_no_fault[OF 2 this assms(3)] show ?thesis .
  qed
qed



lemma list_reports_ok:
  assumes nf: "\<forall>t. \<not> fault e t" and d: "REPORTS_DIR e \<in> set (dirs w)" and r: "readable e w"
  shows "\<exists>w'. list_reports e w =
           (Inr (map (\<lambda>n. shown (report_file e w n))
              (filter (\<lambda>n. endsWith n ''.json'') (names (REPORTS_DIR e) w))), w')"
proof -
  from nf d have 1: "readdir e (REPORTS_DIR e) w = (Inr (names (REPORTS_DIR e) w), advance w)"
    by (simp add: readdir_def)
  have "\<forall>n\<in>set (names (REPORTS_DIR e) w). endsWith n ''.json'' \<longrightarrow>
           segment n \<and> (\<exists>ps. report_file e (advance w) n = Some (JsonText (JObj ps)))"
  proof (intro ballI impI)
    fix n assume n: "n \<in> set (names (REPORTS_DIR e) w)" and j: "endsWith n ''.json''"
    with r have sg: "segment n" and rec: "is_record (report_file e w n)"
      by (auto simp: readable_def list_all_iff)
    from rec obtain ps where "report_file e w n = Some (JsonText (JObj ps))"
      by (cases "report_file e w n" rule: is_record.cases) auto
    with sg show "segment n \<and> (\<exists>ps. report_file e (advance w) n = Some (JsonText (JObj ps)))"
      by simp
  qed
  from read_all_ok[OF nf this, of "[]"] obtain w' where
    "read_all e (names (REPORTS_DIR e) w) [] (advance w) =
       (Inr (map (\<lambda>n. shown (report_file e (advance w) n))
          (filter (\<lambda>n. endsWith n ''.json'') (names (REPORTS_DIR e) w))), w')" by auto
  then show ?thesis
    by (simp add: list_reports_def bind_io_def 1)
qed

section \<open>The handlers by the outcome of their try block\<close>

lemma get_reports_split:
  "get_reports e w =
     (case fst (list_reports e w) of
        Inr rs \<Rightarrow> \<lparr>code = 200, body = JArr (map printed rs)\<rparr>
      | Inl err \<Rightarrow> \<lparr>code = 500, body = error_body ''Error reading reports''\<rparr>,
      snd (list_reports e w))"
  by (simp add: get_reports_def res_json_def split: prod.splits sum.splits)

lemma put_status_split:
  "put_status e rid st w =
     (case fst (update_status e rid st w) of
        Inr r \<Rightarrow> r
      | Inl err \<Rightarrow> \<lparr>code = 500, body = error_body update_failed_msg\<rparr>,
      snd (update_status e rid st w))"
  by (simp add: put_status_def res_json_def split: prod.splits sum.splits)

lemma post_reports_split:
  "post_reports e s w =
     (case fst (create_report e s w) of
        Inr rid \<Rightarrow> \<lparr>code = 201, body = JObj [(''reportId'', JStr rid)]\<rparr>
      | Inl err \<Rightarrow> \<lparr>code = 400, body = error_body (message err)\<rparr>,
      snd (create_report e s w))"
  by (simp add: post_reports_def res_json_def split: prod.splits sum.splits)

lemma post_reports_201:
  "post_reports e s w = (\<lparr>code = 201, body = b\<rparr>, w') \<Longrightarrow>
     \<exists>rid. b = JObj [(''reportId'', JStr rid)] \<and> create_report e s w = (Inr rid, w')"
  by (auto simp: post_reports_def res_json_def split: prod.splits sum.splits)



lemma endsWith_append: "endsWith (a @ b) b"
  by (simp add: endsWith_def)

lemma endsWith_json: "endsWith (rid @ ''.json'') ''.json''"
  by (rule endsWith_append)

lemma get_reports_includes:
  assumes nf: "\<forall>t. \<not> fault e t" and d: "REPORTS_DIR e \<in> set (dirs w)" and r: "readable e w"
    and l: "report_file e w (rid @ ''.json'') = Some (JsonText (JObj ps))"
  shows "\<exists>rs w'. get_reports e w = (\<lparr>code = 200, body = JArr rs\<rparr>, w') \<and>
           printed (JObj (backfilled ps)) \<in> set rs"
proof -
  let ?ns = "filter (\<lambda>n. endsWith n ''.json'') (names (REPORTS_DIR e) w)"
  from list_reports_ok[OF nf d r] obtain w' where
    lr: "list_reports e w = (Inr (map (\<lambda>n. shown (report_file e w n)) ?ns), w')"
    by blast
  from report_file_in_names[OF l] have "rid @ ''.json'' \<in> set ?ns"
    by (simp add: endsWith_json)
  then have "printed (shown (report_file e w (rid @ ''.json''))) \<in>
      set (map printed (map (\<lambda>n. shown (report_file e w n)) ?ns))"
    by (auto simp: image_iff)
  with l have "printed (JObj (backfilled ps)) \<in>
      set (map printed (map (\<lambda>n. shown (report_file e w n)) ?ns))"
    by simp
  with lr show ?thesis by (simp add: get_reports_def res_json_def)
qed


section \<open>Updating a status\<close>

lemma valid_status_iff: "valid_status st \<longleftrightarrow> (\<exists>v. st = Some v \<and> v \<in> set allowed)"
  by (auto simp: valid_status_def allowed_def)

lemma update_status_invalid:
  "\<not> valid_status st \<Longrightarrow> update_status e rid st w = (Inr invalid_status, w)"
  by (cases st) (auto simp: update_status_def valid_status_iff return_io_def)

lemma update_status_missing:
  "valid_status st \<Longrightarrow> map_of (files w) (path_join (REPORTS_DIR e) (rid @ ''.json'')) = None \<Longrightarrow>
   path_join (REPORTS_DIR e) (rid @ ''.json'') \<notin> set (dirs w) \<Longrightarrow>
     update_status e rid st w = (Inr not_found, advance w)"
  by (auto simp: update_status_def valid_status_iff access_def Let_def)

lemma update_status_access_fault:
  "valid_status st \<Longrightarrow> fault e (tick w) \<Longrightarrow>
     update_status e rid st w = (Inr not_found, advance w)"
  by (auto simp: update_status_def valid_status_iff access_def Let_def)

lemma update_status_found:
  "v \<in> set allowed \<Longrightarrow>
   map_of (files w) (path_join (REPORTS_DIR e) (rid @ ''.json'')) \<noteq> None \<or>
     path_join (REPORTS_DIR e) (rid @ ''.json'') \<in> set (dirs w) \<Longrightarrow>
   \<not> fault e (tick w) \<Longrightarrow>
     update_status e rid (Some v) w =
       bind_io (readFile e (path_join (REPORTS_DIR e) (rid @ ''.json''))) (\<lambda>content.
       bind_io (JSON_parse e content) (\<lambda>parsed.
       bind_io (set_status e parsed v) (\<lambda>updated.
       bind_io (writeFile e (path_join (REPORTS_DIR e) (rid @ ''.json'')) (JSON_stringify updated)) (\<lambda>_.
       return_io (res_json 200 updated))))) (advance w)"
  by (auto simp: update_status_def access_def Let_def)

lemma set_status_world: "set_status e r v w = (x, w') \<Longrightarrow> w' = w"
  by (cases r) (auto simp: return_io_def throw_def)

lemma writeFile_world:
  "writeFile e p c w = (r, w') \<Longrightarrow> tick w' = Suc (tick w) \<and> dirs w' = dirs w"
  by (auto simp: writeFile_def advance_def split: if_splits)

lemma writeFile_Inr:
  "writeFile e p c w = (Inr u, w') \<Longrightarrow>
     \<not> fault e (tick w) \<and> files w' = AList.update p c (files w) \<and> dirs w' = dirs w \<and>
     tick w' = Suc (tick w)"
  by (auto simp: writeFile_def advance_def split: if_splits)


lemma update_status_found_Inr:
  assumes v: "v \<in> set allowed"
    and l: "map_of (files w) (path_join (REPORTS_DIR e) (rid @ ''.json'')) \<noteq> None \<or>
            path_join (REPORTS_DIR e) (rid @ ''.json'') \<in> set (dirs w)"
    and nf: "\<not> fault e (tick w)"
    and r: "update_status e rid (Some v) w = (Inr r, w')"
  shows "\<exists>parsed updated.
           map_of (files w) (path_join (REPORTS_DIR e) (rid @ ''.json'')) = Some (JsonText parsed) \<and>
           set_status e parsed v (advance (advance w)) = (Inr updated, advance (advance w)) \<and>
           r = res_json 200 updated \<and>
           \<not> fault e (Suc (tick w)) \<and> \<not> fault e (Suc (Suc (tick w))) \<and>
           files w' = AList.update (path_join (REPORTS_DIR e) (rid @ ''.json''))
                        (JsonText (printed updated)) (files w) \<and>
           dirs w' = dirs w \<and> tick w' = Suc (Suc (Suc (tick w)))"
proof -
  let ?p = "path_join (REPORTS_DIR e) (rid @ ''.json'')"
  from r obtain content w1 parsed w2 updated w3 u w4 where
    1: "readFile e ?p (advance w) = (Inr content, w1)" and
    2: "JSON_parse e content w1 = (Inr parsed, w2)" and
    3: "set_status e parsed v w2 = (Inr updated, w3)" and
    4: "writeFile e ?p (JSON_stringify updated) w3 = (Inr u, w4)" and
    5: "return_io (res_json 200 updated) w4 = (Inr r, w')"
    unfolding update_status_found[OF v l nf] bind_io_eq_Inr by blast
  from readFile_Inr[OF 1] have c: "map_of (files w) ?p = Some content"
    and nf1: "\<not> fault e (Suc (tick w))"
    and w1: "w1 = advance (advance w)" by simp_all
  from JSON_parse_world[OF 2] have w2: "w2 = w1" .
  from set_status_world[OF 3] have w3: "w3 = w2" .
  from 2 have "content = JsonText parsed" by (cases content) (auto simp: return_io_def throw_def)
  with c have "map_of (files w) ?p = Some (JsonText parsed)" by simp
  moreover from 3 w1 w2 w3 have "set_status e parsed v (advance (advance w)) = (Inr updated, advance (advance w))"
    by simp
  moreover from 5 have "r = res_json 200 updated" and w4: "w' = w4"
    by (simp_all add: return_io_def)
  moreover from writeFile_Inr[OF 4] w1 w2 w3 w4 have "\<not> fault e (Suc (Suc (tick w)))"
    and "files w' = AList.update ?p (JsonText (printed updated)) (files w)"
    and "dirs w' = dirs w" and "tick w' = Suc (Suc (Suc (tick w)))"
    by (simp_all add: JSON_stringify_def)
  ultimately show ?thesis using nf1 by blast
qed

lemma update_status_Inr_no_fault:
  assumes "update_status e rid st w = (Inr r, w')" "tick w < t" "t < tick w'"
  shows "\<not> fault e t"
proof (cases "valid_status st")
  case False
  from update_status_invalid[OF False, of e rid w] assms show ?thesis by simp
next
  case True
  then obtain v where st: "st = Some v" and v: "v \<in> set allowed" by (auto simp: valid_status_iff)
  let ?p = "path_join (REPORTS_DIR e) (rid @ ''.json'')"
  show ?thesis
  proof (cases "map_of (files w) ?p \<noteq> None \<or> ?p \<in> set (dirs w)")
    case False
    then have "map_of (files w) ?p = None" "?p \<notin> set (dirs w)" by simp_all
    from update_status_missing[OF True this] assms show ?thesis by simp
  next
    case found: True
    show ?thesis
    proof (cases "fault e (tick w)")
      case True
      from update_status_access_fault[OF \<open>valid_status st\<close> True, of rid] assms show ?thesis
        by simp
    next
      case False
      from update_status_found_Inr[OF v found False assms(1)[unfolded st]] assms(2,3)
      show ?thesis by (auto simp: less_Suc_eq)
    qed
  qed
qed


lemma filter_update_other:
  "filter (\<lambda>p. fst p \<noteq> k) (AList.update k v ps) = filter (\<lambda>p. fst p \<noteq> k) ps"
  by (induction ps) auto

lemma update_status_ok:
  assumes v: "v \<in> set allowed"
    and l: "map_of (files w) (path_join (REPORTS_DIR e) (rid @ ''.json'')) = Some (JsonText (JObj ps))"
    and d: "butlast (path_join (REPORTS_DIR e) (rid @ ''.json'')) \<in> set (dirs w)"
    and ne: "path_join (REPORTS_DIR e) (rid @ ''.json'') \<noteq> []"
    and nf: "\<forall>t. \<not> fault e t"
  shows "update_status e rid (Some v) w =
           (Inr (res_json 200 (JObj (AList.update ''status'' v ps))),
            w\<lparr>files := AList.update (path_join (REPORTS_DIR e) (rid @ ''.json''))
                 (JsonText (printed (JObj (AList.update ''status'' v ps)))) (files w),
              tick := Suc (Suc (Suc (tick w)))\<rparr>)"
proof -
  from l have l': "map_of (files w) (path_join (REPORTS_DIR e) (rid @ ''.json'')) \<noteq> None \<or>
     path_join (REPORTS_DIR e) (rid @ ''.json'') \<in> set (dirs w)" by simp
  from nf have nf0: "\<not> fault e (tick w)" by simp
  show ?thesis
    unfolding update_status_found[OF v l' nf0]
    using nf d l ne
    by (simp add: bind_io_def readFile_def advance_def return_io_def writeFile_def
        JSON_stringify_def)
qed

section \<open>The invariant of the store\<close>




lemma store_ok_tick [simp]: "store_ok e (advance w) = store_ok e w"
  by (simp add: store_ok_def)

lemma store_ok_tick_update [simp]: "store_ok e (w\<lparr>tick := t\<rparr>) = store_ok e w"
  by (simp add: store_ok_def names_def report_file_def)











section \<open>A report that was created\<close>

lemma create_report_Inr:
  assumes "create_report e s w = (Inr rid, w')"
  shows "\<exists>pf os ts ca F. validate e s = None \<and>
           files w' = AList.update (path_join (REPORTS_DIR e) (rid @ ''.json''))
             (JsonText (printed (reportData rid s pf os ts ca))) F"
proof -
  from assms have v: "validate e s = None"
    by (auto simp: create_report_def throw_eq split: option.splits)
  from assms v obtain pf os ts ca w6 u where
    "writeFile e (path_join (REPORTS_DIR e) (rid @ ''.json''))
       (JSON_stringify (reportData rid s pf os ts ca)) w6 = (Inr u, w')"
    by (auto simp: create_report_def bind_io_eq_Inr return_io_eq uuidv4_def)
  from writeFile_Inr[OF this] v show ?thesis
    unfolding JSON_stringify_def by blast
qed

lemma created_record:
  assumes "post_reports e s w = (\<lparr>code = 201, body = JObj [(''reportId'', JStr rid)]\<rparr>, w')"
    and "CHR ''/'' \<notin> set rid"
  shows "\<exists>pf os ts ca. report_file e w' (rid @ ''.json'') =
           Some (JsonText (printed (reportData rid s pf os ts ca)))"
proof -
  from post_reports_201[OF assms(1)] have "create_report e s w = (Inr rid, w')" by simp
  from create_report_Inr[OF this] obtain pf os ts ca F where
    "files w' = AList.update (path_join (REPORTS_DIR e) (rid @ ''.json''))
             (JsonText (printed (reportData rid s pf os ts ca))) F" by blast
  then have "report_file e w' (rid @ ''.json'') = Some (JsonText (printed (reportData rid s pf os ts ca)))"
    by (simp add: report_file_def path_join_segment[OF segment_json[OF assms(2)]] update_conv')
  then show ?thesis by blast
qed


lemma created_location:
  assumes "post_reports e s w = (\<lparr>code = 201, body = JObj [(''reportId'', JStr rid)]\<rparr>, w')"
    and "CHR ''/'' \<notin> set rid"
  shows "stored_field e w' rid ''location'' = Some (printed (or_null (location s)))"
proof -
  from created_record[OF assms] obtain pf os ts ca where
    rf: "report_file e w' (rid @ ''.json'') = Some (JsonText (printed (reportData rid s pf os ts ca)))"
    by blast
  obtain ps where ps: "printed (reportData rid s pf os ts ca) = JObj ps"
    using printed_reportData_JObj by blast
  from reportData_fields(6)[OF ps] show ?thesis
    by (simp add: stored_field_def rf ps)
qed

section \<open>Malformed attachments\<close>

lemma sbi_format_error_iff:
  "fst (saveBase64Image e (Some (JStr str)) prefix w) = Inl (Error ''Invalid base64 string format'')
     \<longleftrightarrow> match_data_uri str = None"
proof (cases "match_data_uri str")
  case None
  then show ?thesis by (simp add: sbi_no_match)
next
  case (Some mp)
  obtain m p where mp: "mp = (m, p)" by (cases mp)
  with Some show ?thesis
    by (auto simp: saveBase64Image_def bind_io_def date_now_def math_random_10000_def writeFile_def
        return_io_def Let_def sys_error_def split: if_splits)
qed

lemma data_uri_pattern_match: "data_uri_pattern s \<longleftrightarrow> match_data_uri s \<noteq> None"
  by (simp add: match_data_uri_pattern)

lemma malformed_not_decodable: "malformed x \<Longrightarrow> \<not> decodable x"
  by (auto simp: malformed_def decodable_def match_data_uri_pattern)

lemma text_not_decodable:
  "is_text x \<Longrightarrow> \<not> decodable x \<Longrightarrow>
     saveBase64Image e x prefix w = (Inl (Error ''Invalid base64 string format''), w)"
proof -
  assume t: "is_text x" and nd: "\<not> decodable x"
  from t obtain str where x: "x = Some (JStr str)" by (cases x rule: is_text.cases) auto
  with nd have "match_data_uri str = None"
    by (cases "match_data_uri str") (auto simp: decodable_def)
  from sbi_no_match[OF this] x show ?thesis by simp
qed

lemma create_report_Inr_decodable:
  assumes "create_report e s w = (Inr rid, w')"
  shows "list_all decodable (attachments s)"
proof -
  from create_report_Inr[OF assms] have v: "validate e s = None" by blast
  from assms obtain w1 pf w2 os w3 ts w4 where
    2: "save_photos e (photo_list s) [] w1 = (Inr pf, w2)" and
    3: "saveBase64Image e (ownerSignature s) ''ownerSign'' w2 = (Inr os, w3)" and
    4: "saveBase64Image e (technicianSignature s) ''techSign'' w3 = (Inr ts, w4)"
    unfolding create_report_valid[OF v] bind_io_eq_Inr by blast
  from save_photos_Inr[OF 2] sbi_Inr[OF 3] sbi_Inr[OF 4] show ?thesis
    by (simp add: attachments_def list_all_iff)
qed

lemma save_photos_texts:
  assumes "\<forall>t. \<not> fault e t" "UPLOADS_DIR e \<in> set (dirs w)" "list_all (\<lambda>p. is_text (Some p)) ps"
  shows "list_all (\<lambda>p. decodable (Some p)) ps \<or>
         (\<exists>w'. save_photos e ps acc w = (Inl (Error ''Invalid base64 string format''), w'))"
  using assms(2,3)
proof (induction ps arbitrary: acc w)
  case Nil then show ?case by simp
next
  case (Cons p ps)
  from Cons.prems have tp: "is_text (Some p)" and rest: "list_all (\<lambda>p. is_text (Some p)) ps"
    by simp_all
  show ?case
  proof (cases "decodable (Some p)")
    case False
    from text_not_decodable[OF tp False, of e "''photo''" w] show ?thesis
      by (simp add: bind_io_def)
  next
    case True
    from assms(1) have nf: "\<not> fault e (Suc (Suc (tick w)))" by simp
    have ns: "CHR ''/'' \<notin> set ''photo''" by simp
    from sbi_ok[OF True nf Cons.prems(1) ns] obtain w1 where
      1: "saveBase64Image e (Some p) ''photo'' w = (Inr (reference e ''photo'' (tick w) (Some p)), w1)"
      and u1: "dirs w1 = dirs w" by blast
    from u1 Cons.prems(1) have u1': "UPLOADS_DIR e \<in> set (dirs w1)" by simp
    from Cons.IH[OF u1' rest, of "acc @ [reference e ''photo'' (tick w) (Some p)]"] True 1
    show ?thesis by (auto simp: bind_io_def)
  qed
qed

lemma create_report_format_error:
  assumes v: "validate e s = None" and nf: "\<forall>t. \<not> fault e t"
    and tx: "list_all is_text (attachments s)" and nd: "\<not> list_all decodable (attachments s)"
  shows "\<exists>w'. create_report e s w = (Inl (Error ''Invalid base64 string format''), w')"
proof -
  from nf have "\<not> fault e (tick w)" "\<not> fault e (Suc (tick w))" by simp_all
  from ensureDirs_ok[OF this] obtain w1 where
    s1: "ensureDirs e w = (Inr (), w1)" and u1: "UPLOADS_DIR e \<in> set (dirs w1)" by blast
  from tx have tp: "list_all (\<lambda>p. is_text (Some p)) (photo_list s)"
    and t1: "is_text (ownerSignature s)" and t2: "is_text (technicianSignature s)"
    by (simp_all add: attachments_def list_all_iff)
  show ?thesis
  proof (cases "list_all (\<lambda>p. decodable (Some p)) (photo_list s)")
    case False
    with save_photos_texts[OF nf u1 tp, of "[]"] obtain w' where
      "save_photos e (photo_list s) [] w1 = (Inl (Error ''Invalid base64 string format''), w')"
      by blast
    then show ?thesis
      unfolding create_report_valid[OF v] by (simp add: bind_io_def s1)
  next
    case True
    from save_photos_ok[OF True nf u1, of "[]"] obtain w2 where
      s2: "save_photos e (photo_list s) [] w1 = (Inr (photo_references e (tick w1) (photo_list s)), w2)"
      and u2: "dirs w2 = dirs w1" by auto
    from u1 u2 have u2': "UPLOADS_DIR e \<in> set (dirs w2)" by simp
    show ?thesis
    proof (cases "decodable (ownerSignature s)")
      case False
      from text_not_decodable[OF t1 False, of e "''ownerSign''" w2] show ?thesis
        unfolding create_report_valid[OF v] by (simp add: bind_io_def s1 s2)
    next
      case d1: True
      from nf have nf2: "\<not> fault e (Suc (Suc (tick w2)))" by simp
      have ns: "CHR ''/'' \<notin> set ''ownerSign''" by simp
      from sbi_ok[OF d1 nf2 u2' ns] obtain w3 where
        s3: "saveBase64Image e (ownerSignature s) ''ownerSign'' w2 =
           (Inr (reference e ''ownerSign'' (tick w2) (ownerSignature s)), w3)" by blast
      from nd True d1 have "\<not> decodable (technicianSignature s)"
        by (simp add: attachments_def list_all_iff)
      from text_not_decodable[OF t2 this, of e "''techSign''" w3] show ?thesis
        unfolding create_report_valid[OF v] by (simp add: bind_io_def s1 s2 s3)
    qed
  qed
qed

lemma extension_of_slash:
  assumes "match_data_uri str = Some (a @ CHR ''/'' # b, p)" "CHR ''/'' \<notin> set a"
  shows "extension_of (Some (JStr str)) = Some (takeWhile (\<lambda>c. c \<noteq> CHR ''/'') b)"
  using assms by (simp add: extension_of_def second_split_on_some)

section \<open>The references of the photos\<close>

lemma photo_references_length: "length (photo_references e t ps) = length ps"
  by (induction ps arbitrary: t) auto

lemma photo_references_nth:
  "i < length ps \<Longrightarrow> photo_references e t ps ! i = reference e ''photo'' (t + 3 * i) (Some (ps ! i))"
proof (induction ps arbitrary: t i)
  case Nil then show ?case by simp
next
  case (Cons p ps)
  show ?case
  proof (cases i)
    case 0 then show ?thesis by simp
  next
    case (Suc j)
    with Cons.prems have "j < length ps" by simp
    from Cons.IH[OF this, of "t + 3"] Suc show ?thesis by (simp add: add.assoc)
  qed
qed

lemma file_name_undefined:
  "file_name prefix now rnd None = (prefix @ ''-'' @ decimal now @ ''-'' @ decimal rnd) @ ''.undefined''"
  by (simp add: file_name_def)

section \<open>Evaluating the examples\<close>

lemmas match_eval = match_data_uri_def goes_through_def dots_def line_terminator_def

lemmas double_eval = is_zero_def is_nan_def is_finite_def plus_zero_def minus_zero_def one_def
  infinity_def

lemmas io_eval = bind_io_def return_io_def throw_def advance_def sys_error_def date_now_def
  math_random_10000_def uuidv4_def new_date_iso_def mkdir_def writeFile_def readFile_def
  access_def readdir_def names_def child_of_def path_join_def REPORTS_DIR_def UPLOADS_DIR_def
  JSON_stringify_def res_json_def

lemmas handler_eval = post_reports_def create_report_def validate_def check_length_def
  check_present_def ensureDirs_def
  saveBase64Image_def file_name_def decimal.simps digit_def reportData_def error_body_def
  get_reports_def list_reports_def backfill_def endsWith_def
  put_status_def update_status_def allowed_def invalid_status_def not_found_def Let_def

lemma match_foo: "match_data_uri ''data:foo;base64,AAAA'' = Some (''foo'', ''AAAA'')"
  by (simp add: match_eval)

lemma match_garbage:
  "match_data_uri ''data:image/jpeg;base64,!!!!'' = Some (''image/jpeg'', ''!!!!'')"
  by (simp add: match_eval)

lemma match_two_slashes:
  "match_data_uri ''data:image/png/x;base64,AAAA'' = Some (''image/png/x'', ''AAAA'')"
  by (simp add: match_eval)

lemma match_no_prefix: "match_data_uri ''image/png;base64,AAAA'' = None"
  by (simp add: match_eval)

lemma env_ok_no_fault: "\<forall>t. \<not> fault env_ok t"
  by (simp add: env_ok_def)

lemma env_ok_uuid: "\<forall>t. CHR ''/'' \<notin> set (uuid env_ok t)"
  by (simp add: env_ok_def decimal_no_slash)

lemma sub_ok_valid: "valid_submission env_ok sub_ok"
  by (simp add: valid_submission_def validate_def check_length_def check_present_def
      photo_list_def decodable_def sub_ok_def match_eval)

lemma world_one_eq:
  "post_reports env_ok sub_ok world_empty =
     (\<lparr>code = 201, body = JObj [(''reportId'', JStr ''id-14'')]\<rparr>,
      \<lparr>dirs = [[], [''app''], [''app'', ''reports''], [''app'', ''uploads'']],
       files = [([''app'', ''uploads'', ''photo-1002-21.png''], Unparseable [0, 0, 0]),
                ([''app'', ''uploads'', ''photo-1005-42.jpeg''], Unparseable []),
                ([''app'', ''uploads'', ''ownerSign-1008-63.undefined''], Unparseable [0, 0, 0]),
                ([''app'', ''uploads'', ''techSign-1011-84.png''], Unparseable [65, 66, 67]),
                ([''app'', ''reports'', ''id-14.json''], JsonText (JObj record_one))],
       tick = 17\<rparr>)"
  by (simp add: record_one_def env_ok_def sub_ok_def world_empty_def handler_eval io_eval
      match_eval double_eval)

section \<open>The examples, evaluated\<close>

lemma sub_ok_created:
  "fst (post_reports env_ok sub_ok world_empty) = \<lparr>code = 201, body = JObj [(''reportId'', JStr ''id-14'')]\<rparr>"
  by (simp add: world_one_eq)

lemma world_one_files:
  "world_one =
      \<lparr>dirs = [[], [''app''], [''app'', ''reports''], [''app'', ''uploads'']],
       files = [([''app'', ''uploads'', ''photo-1002-21.png''], Unparseable [0, 0, 0]),
                ([''app'', ''uploads'', ''photo-1005-42.jpeg''], Unparseable []),
                ([''app'', ''uploads'', ''ownerSign-1008-63.undefined''], Unparseable [0, 0, 0]),
                ([''app'', ''uploads'', ''techSign-1011-84.png''], Unparseable [65, 66, 67]),
                ([''app'', ''reports'', ''id-14.json''], JsonText (JObj record_one))],
       tick = 17\<rparr>"
  by (simp add: world_one_def world_one_eq)

lemma world_one_report:
  "report_file env_ok world_one ''id-14.json'' = Some (JsonText (JObj record_one))"
  by (simp add: world_one_files report_file_def REPORTS_DIR_def env_ok_def)

lemma world_one_names: "names (REPORTS_DIR env_ok) world_one = [''id-14.json'']"
  by (simp add: world_one_files names_def child_of_def REPORTS_DIR_def env_ok_def)

lemma world_one_readable: "readable env_ok world_one"
  by (simp add: readable_def world_one_names world_one_report endsWith_def segment_def)

lemma world_one_tick: "tick world_one = 17"
  by (simp add: world_one_files)

lemma world_one_status: "stored_field env_ok world_one ''id-14'' ''status'' = Some (JStr ''pending'')"
  by (simp add: stored_field_def world_one_report record_one_def)

lemma record_one_printed: "printed (JObj record_one) = JObj record_one"
  by (simp add: record_one_def)

lemma put_fault18:
  "put_status env_fault18 ''id-14'' (Some (JStr ''attended'')) world_one =
     (\<lparr>code = 500, body = error_body update_failed_msg\<rparr>, world_one\<lparr>tick := 19\<rparr>)"
  by (simp add: world_one_files env_fault18_def env_ok_def handler_eval io_eval)




lemma true_name_created:
  "validate env_ok sub_true_name = None \<and>
   fst (post_reports env_ok sub_true_name world_empty) =
     \<lparr>code = 201, body = JObj [(''reportId'', JStr ''id-14'')]\<rparr> \<and>
   stored_field env_ok (snd (post_reports env_ok sub_true_name world_empty)) ''id-14'' ''ownerName'' =
     Some (JBool True)"
  by (simp add: sub_true_name_def sub_ok_def world_empty_def env_ok_def stored_field_def
      report_file_def handler_eval io_eval match_eval double_eval)

lemma infinite_created:
  "fst (post_reports env_ok sub_infinite world_empty) =
     \<lparr>code = 201, body = JObj [(''reportId'', JStr ''id-14'')]\<rparr> \<and>
   stored_field env_ok (snd (post_reports env_ok sub_infinite world_empty)) ''id-14'' ''location'' =
     Some JNull"
  by (simp add: sub_infinite_def sub_ok_def world_empty_def env_ok_def stored_field_def
      report_file_def handler_eval io_eval match_eval double_eval)

lemma legacy_traversal:
  "put_status env_ok ''../reports/old'' (Some (JStr ''attended'')) world_legacy =
     (\<lparr>code = 200, body = JObj [(''id'', JStr ''old''), (''status'', JStr ''attended'')]\<rparr>,
      world_legacy\<lparr>files := [([''app'', ''reports'', ''old.json''],
                    JsonText (JObj [(''id'', JStr ''old''), (''status'', JStr ''attended'')]))],
                  tick := 3\<rparr>)"
  by (simp add: world_legacy_def env_ok_def handler_eval io_eval)

lemma number_less_examples:
  "number_less one 2 \<and> \<not> number_less one 1 \<and> \<not> number_less infinity 10 \<and>
   number_less plus_zero 1 \<and> \<not> number_less minus_zero 0 \<and>
   number_less (Double False 1024 0) 3 \<and> \<not> number_less (Double False 1024 0) 2 \<and>
   number_less (Double True 1030 5) 0"
  by (simp add: number_less_def double_eval)

lemma length_less_examples:
  "length_less e (JStr ''A'') 2 = Inr True \<and> length_less e (JStr ''Al'') 2 = Inr False \<and>
   length_less e (JBool True) 2 = Inr False \<and> length_less e (JNum one) 2 = Inr False \<and>
   length_less e (JObj []) 2 = Inr False \<and>
   length_less e (JObj [(''length'', JNum one)]) 2 = Inr True \<and>
   length_less e (JObj [(''length'', JNull)]) 2 = Inr True \<and>
   length_less e (JObj [(''length'', JObj [])]) 2 = Inr False \<and>
   length_less e (JArr []) 2 = Inr True"
  by (simp add: number_less_def double_eval)

section \<open>Writing into a readable store\<close>

lemma readable_cong: "files w' = files w \<Longrightarrow> dirs w' = dirs w \<Longrightarrow> readable e w' = readable e w"
  by (simp add: readable_def names_def report_file_def)

lemma readable_write:
  assumes ok: "readable e w" and rec: "is_record (Some c)" and sg: "segment n"
  shows "readable e (w\<lparr>files := AList.update (REPORTS_DIR e @ [n]) c (files w)\<rparr>)"
proof -
  let ?p = "REPORTS_DIR e @ [n]"
  let ?w = "w\<lparr>files := AList.update ?p c (files w)\<rparr>"
  have rf: "\<And>m. report_file e ?w m = (if m = n then Some c else report_file e w m)"
    by (auto simp: report_file_def update_conv')
  have "child_of (REPORTS_DIR e) ?p" by simp
  then have "set (names (REPORTS_DIR e) ?w) = insert (last ?p) (set (names (REPORTS_DIR e) w))"
    by (rule names_update_child)
  then have ns: "set (names (REPORTS_DIR e) ?w) = insert n (set (names (REPORTS_DIR e) w))" by simp
  show ?thesis
    unfolding readable_def list_all_iff ns
    using ok sg rec by (auto simp: rf readable_def list_all_iff)
qed

lemma backfilled_status:
  "map_of ps ''status'' = Some (JStr (c # cs)) \<Longrightarrow> backfilled ps = ps"
  by (simp add: backfilled_def)

lemma allowed_printed: "v \<in> set allowed \<Longrightarrow> printed v = v"
  by (auto simp: allowed_def)

lemma printed_JObj_fields: "printed (JObj ps) = JObj ps \<longleftrightarrow> map (map_prod id printed) ps = ps"
  by simp

section \<open>The properties\<close>

text \<open>
  C1. A valid submission (the rules pass and every attachment matches the pattern), a file
  system that does not fail, identifiers from \<^verbatim>\<open>uuidv4\<close> that hold no \<^verbatim>\<open>/\<close> and are not
  in the store yet: the answer is 201 with an identifier no stored record had; the record
  stored under it has status pending, \<^verbatim>\<open>createdAt\<close> read from the clock during the
  request, one photo reference per submitted photo in the order of submission, and the
  four text fields as \<^verbatim>\<open>JSON.stringify\<close> prints the submitted values, which for a string
  is the string; the records stored before are untouched; a following \<^verbatim>\<open>GET /reports\<close>
  (every stored report being readable) lists the new record.
\<close>

theorem C1_create:
  assumes "valid_submission e s" and "\<forall>t. \<not> fault e t"
    and "\<forall>t. CHR ''/'' \<notin> set (uuid e t) \<and> report_file e w (uuid e t @ ''.json'') = None"
    and "readable e w"
  shows "\<exists>rid w' t refs.
           post_reports e s w = (\<lparr>code = 201, body = JObj [(''reportId'', JStr rid)]\<rparr>, w') \<and>
           report_file e w (rid @ ''.json'') = None \<and>
           stored_field e w' rid ''id'' = Some (JStr rid) \<and>
           stored_field e w' rid ''status'' = Some (JStr ''pending'') \<and>
           tick w \<le> t \<and> t < tick w' \<and>
           stored_field e w' rid ''createdAt'' = Some (JStr (toISOString e (clock e t))) \<and>
           stored_field e w' rid ''photos'' = Some (JArr (map JStr refs)) \<and>
           length refs = length (photo_list s) \<and>
           (\<forall>i. i < length (photo_list s) \<longrightarrow>
              refs ! i = reference e ''photo'' (tick w + 2 + 3 * i) (Some (photo_list s ! i))) \<and>
           stored_field e w' rid ''ownerName'' = map_option printed (ownerName s) \<and>
           stored_field e w' rid ''phoneNumber'' = map_option printed (phoneNumber s) \<and>
           stored_field e w' rid ''licensePlate'' = map_option printed (licensePlate s) \<and>
           stored_field e w' rid ''faultDescription'' = map_option printed (faultDescription s) \<and>
           (\<forall>x. is_text x \<longrightarrow> map_option printed x = x) \<and>
           (\<forall>name. name \<noteq> rid @ ''.json'' \<longrightarrow> report_file e w' name = report_file e w name) \<and>
           (\<exists>rs w'' ps. get_reports e w' = (\<lparr>code = 200, body = JArr rs\<rparr>, w'') \<and>
              report_file e w' (rid @ ''.json'') = Some (JsonText (JObj ps)) \<and>
              JObj ps \<in> set rs)"
proof -
  define n where "n = length (photo_list s)"
  define rid where "rid = uuid e (tick w + 3 * n + 8)"
  define refs where "refs = photo_references e (tick w + 2) (photo_list s)"
  define t where "t = tick w + 3 * n + 9"
  define rep where "rep = reportData rid s refs
      (reference e ''ownerSign'' (tick w + 3 * n + 2) (ownerSignature s))
      (reference e ''techSign'' (tick w + 3 * n + 5) (technicianSignature s))
      (toISOString e (clock e t))"
  from assms(3) have id: "\<forall>t. CHR ''/'' \<notin> set (uuid e t)" by simp
  from create_report_ok[OF assms(1) assms(2) id, of w] obtain w' w6 where
    cr: "create_report e s w = (Inr rid, w')" and
    same: "same_reports e w w6" and dr: "dirs w' = dirs w6" and rd: "REPORTS_DIR e \<in> set (dirs w6)" and
    fl: "files w' = AList.update (REPORTS_DIR e @ [rid @ ''.json'']) (JsonText (printed rep)) (files w6)" and
    tk: "tick w' = tick w + 3 * n + 11"
    unfolding n_def rid_def refs_def t_def rep_def by blast
  obtain ps where ps: "printed rep = JObj ps"
    unfolding rep_def using printed_reportData_JObj by blast
  note fields = reportData_fields[OF ps[unfolded rep_def]]
  have post: "post_reports e s w = (\<lparr>code = 201, body = JObj [(''reportId'', JStr rid)]\<rparr>, w')"
    by (simp add: post_reports_def cr res_json_def)
  have fresh: "report_file e w (rid @ ''.json'') = None"
    using assms(3) by (simp add: rid_def)
  have look: "report_file e w' (rid @ ''.json'') = Some (JsonText (JObj ps))"
    by (simp add: report_file_def fl update_conv' ps)
  have sf: "\<And>k. stored_field e w' rid k = map_of ps k"
    by (simp add: stored_field_def look)
  have f1: "stored_field e w' rid ''id'' = Some (JStr rid)" by (simp add: sf fields)
  have f2: "stored_field e w' rid ''status'' = Some (JStr ''pending'')" by (simp add: sf fields)
  have f3: "stored_field e w' rid ''createdAt'' = Some (JStr (toISOString e (clock e t)))"
    by (simp add: sf fields)
  have f4: "stored_field e w' rid ''photos'' = Some (JArr (map JStr refs))" by (simp add: sf fields)
  have f5: "stored_field e w' rid ''ownerName'' = map_option printed (ownerName s)"
    by (simp add: sf fields)
  have f6: "stored_field e w' rid ''phoneNumber'' = map_option printed (phoneNumber s)"
    by (simp add: sf fields)
  have f7: "stored_field e w' rid ''licensePlate'' = map_option printed (licensePlate s)"
    by (simp add: sf fields)
  have f8: "stored_field e w' rid ''faultDescription'' = map_option printed (faultDescription s)"
    by (simp add: sf fields)
  have f9: "\<forall>x. is_text x \<longrightarrow> map_option printed x = x"
  proof (intro allI impI)
    fix x assume "is_text x"
    then show "map_option printed x = x" by (cases x rule: is_text.cases) auto
  qed
  have t1: "tick w \<le> t" and t2: "t < tick w'" by (simp_all add: t_def tk)
  have len: "length refs = length (photo_list s)" by (simp add: refs_def photo_references_length)
  have nth: "\<forall>i. i < length (photo_list s) \<longrightarrow>
              refs ! i = reference e ''photo'' (tick w + 2 + 3 * i) (Some (photo_list s ! i))"
    by (simp add: refs_def photo_references_nth)
  have others: "\<forall>name. name \<noteq> rid @ ''.json'' \<longrightarrow> report_file e w' name = report_file e w name"
  proof (intro allI impI)
    fix name assume "name \<noteq> rid @ ''.json''"
    then have "report_file e w' name = report_file e w6 name"
      by (simp add: report_file_def fl update_conv')
    with same show "report_file e w' name = report_file e w name" by (simp add: same_reports_def)
  qed
  from id have sg: "segment (rid @ ''.json'')" unfolding rid_def by (intro segment_json) simp
  from assms(4) same have "readable e w6" by (simp add: readable_same)
  from readable_write[OF this _ sg, of "JsonText (JObj ps)"]
  have "readable e (w6\<lparr>files := AList.update (REPORTS_DIR e @ [rid @ ''.json'']) (JsonText (JObj ps)) (files w6)\<rparr>)"
    by simp
  moreover have "files w' = files (w6\<lparr>files := AList.update (REPORTS_DIR e @ [rid @ ''.json'']) (JsonText (JObj ps)) (files w6)\<rparr>)"
    and "dirs w' = dirs (w6\<lparr>files := AList.update (REPORTS_DIR e @ [rid @ ''.json'']) (JsonText (JObj ps)) (files w6)\<rparr>)"
    by (simp_all add: fl ps dr)
  ultimately have rd': "readable e w'" using readable_cong by blast
  from rd dr have rdd: "REPORTS_DIR e \<in> set (dirs w')" by simp
  from get_reports_includes[OF assms(2) rdd rd' look] obtain rs w'' where
    g: "get_reports e w' = (\<lparr>code = 200, body = JArr rs\<rparr>, w'')" and
    m: "printed (JObj (backfilled ps)) \<in> set rs" by blast
  from fields(11) have "backfilled ps = ps" by (simp add: backfilled_def)
  moreover have "printed (JObj ps) = JObj ps" using printed_idem[of rep] by (simp only: ps)
  ultimately have "JObj ps \<in> set rs" using m by simp
  with g look have get: "\<exists>rs w'' ps. get_reports e w' = (\<lparr>code = 200, body = JArr rs\<rparr>, w'') \<and>
              report_file e w' (rid @ ''.json'') = Some (JsonText (JObj ps)) \<and>
              JObj ps \<in> set rs" by blast
  show ?thesis
    apply (rule exI[of _ rid], rule exI[of _ w'], rule exI[of _ t], rule exI[of _ refs])
    apply (intro conjI)
    apply (rule post fresh f1 f2 t1 t2 f3 f4 len nth f5 f6 f7 f8 f9 others get)+
    done
qed

theorem C1_create_witness:
  "valid_submission env_ok sub_ok \<and> readable env_ok world_empty \<and>
   (\<forall>t. \<not> fault env_ok t) \<and>
   (\<forall>t. CHR ''/'' \<notin> set (uuid env_ok t) \<and> report_file env_ok world_empty (uuid env_ok t @ ''.json'') = None) \<and>
   fst (post_reports env_ok sub_ok world_empty) =
     \<lparr>code = 201, body = JObj [(''reportId'', JStr ''id-14'')]\<rparr> \<and>
   report_file env_ok world_empty (''id-14'' @ ''.json'') = None \<and>
   stored_field env_ok world_one ''id-14'' ''status'' = Some (JStr ''pending'') \<and>
   stored_field env_ok world_one ''id-14'' ''ownerName'' = Some (JStr ''Al'') \<and>
   is_text (ownerName sub_ok) \<and> map_option printed (ownerName sub_ok) = ownerName sub_ok \<and>
   (\<exists>rs w''. get_reports env_ok world_one = (\<lparr>code = 200, body = JArr rs\<rparr>, w'') \<and>
      JObj record_one \<in> set rs)"
proof -
  have fresh: "\<forall>t. CHR ''/'' \<notin> set (uuid env_ok t) \<and>
      report_file env_ok world_empty (uuid env_ok t @ ''.json'') = None"
    using env_ok_uuid by (simp add: world_empty_def report_file_def)
  have rd: "readable env_ok world_empty"
    by (simp add: readable_def world_empty_def names_def child_of_def REPORTS_DIR_def env_ok_def)
  from C1_create[OF sub_ok_valid env_ok_no_fault fresh rd]
  obtain rid w' rs w'' ps where
    post: "post_reports env_ok sub_ok world_empty = (\<lparr>code = 201, body = JObj [(''reportId'', JStr rid)]\<rparr>, w')" and
    f0: "report_file env_ok world_empty (rid @ ''.json'') = None" and
    f2: "stored_field env_ok w' rid ''status'' = Some (JStr ''pending'')" and
    f5: "stored_field env_ok w' rid ''ownerName'' = map_option printed (ownerName sub_ok)" and
    f9: "\<forall>x. is_text x \<longrightarrow> map_option printed x = x" and
    get: "get_reports env_ok w' = (\<lparr>code = 200, body = JArr rs\<rparr>, w'')" and
    look: "report_file env_ok w' (rid @ ''.json'') = Some (JsonText (JObj ps))" and
    mem: "JObj ps \<in> set rs"
    by (elim exE conjE) (rule that; assumption)
  from post sub_ok_created have rid: "rid = ''id-14''" by simp
  from post have w': "w' = world_one" by (simp add: world_one_def)
  from look have "ps = record_one" by (simp add: rid w' world_one_report)
  with get mem have g: "\<exists>rs w''. get_reports env_ok world_one = (\<lparr>code = 200, body = JArr rs\<rparr>, w'') \<and>
      JObj record_one \<in> set rs" unfolding w' by blast
  from f5 have o: "stored_field env_ok world_one ''id-14'' ''ownerName'' = Some (JStr ''Al'')"
    by (simp add: rid w' sub_ok_def)
  from f0 have l: "report_file env_ok world_empty (''id-14'' @ ''.json'') = None" by (simp add: rid)
  from f2 have p: "stored_field env_ok world_one ''id-14'' ''status'' = Some (JStr ''pending'')"
    by (simp add: rid w')
  have tx: "is_text (ownerName sub_ok)" by (simp add: sub_ok_def)
  with f9 have pr: "map_option printed (ownerName sub_ok) = ownerName sub_ok" by blast
  show ?thesis
    using sub_ok_valid rd env_ok_no_fault fresh sub_ok_created l p o tx pr g by (intro conjI) simp_all
qed

text \<open>
  C2, as the code has it. A status outside \<open>{pending, attended}\<close> is answered with 400
  whether or not a record exists, and the world stays as it was: nothing is read or
  written. With a status of the set, the answer is 404 when nothing exists at the path
  that \<^verbatim>\<open>path.join\<close> makes of the reports directory and \<^verbatim>\<open>${id}.json\<close>, and then only
  the tick moves; for an identifier without \<^verbatim>\<open>/\<close> that path is the entry
  \<^verbatim>\<open>${id}.json\<close> of the reports directory.
\<close>

theorem C2_update_errors:
  "(\<not> valid_status st \<longrightarrow>
      put_status e rid st w = (\<lparr>code = 400, body = error_body invalid_status_msg\<rparr>, w)) \<and>
   (valid_status st \<and> map_of (files w) (path_join (REPORTS_DIR e) (rid @ ''.json'')) = None \<and>
    path_join (REPORTS_DIR e) (rid @ ''.json'') \<notin> set (dirs w) \<longrightarrow>
      put_status e rid st w =
        (\<lparr>code = 404, body = error_body ''Reporte no encontrado''\<rparr>, w\<lparr>tick := Suc (tick w)\<rparr>)) \<and>
   (valid_status st \<and> CHR ''/'' \<notin> set rid \<and> report_file e w (rid @ ''.json'') = None \<and>
    REPORTS_DIR e @ [rid @ ''.json''] \<notin> set (dirs w) \<longrightarrow>
      put_status e rid st w =
        (\<lparr>code = 404, body = error_body ''Reporte no encontrado''\<rparr>, w\<lparr>tick := Suc (tick w)\<rparr>))"
proof (intro conjI impI)
  assume "\<not> valid_status st"
  then show "put_status e rid st w = (\<lparr>code = 400, body = error_body invalid_status_msg\<rparr>, w)"
    by (simp add: put_status_def update_status_invalid invalid_status_def res_json_def)
next
  assume "valid_status st \<and> map_of (files w) (path_join (REPORTS_DIR e) (rid @ ''.json'')) = None \<and>
    path_join (REPORTS_DIR e) (rid @ ''.json'') \<notin> set (dirs w)"
  then show "put_status e rid st w =
        (\<lparr>code = 404, body = error_body ''Reporte no encontrado''\<rparr>, w\<lparr>tick := Suc (tick w)\<rparr>)"
    by (simp add: put_status_def update_status_missing not_found_def res_json_def advance_def)
next
  assume a: "valid_status st \<and> CHR ''/'' \<notin> set rid \<and> report_file e w (rid @ ''.json'') = None \<and>
    REPORTS_DIR e @ [rid @ ''.json''] \<notin> set (dirs w)"
  then have "path_join (REPORTS_DIR e) (rid @ ''.json'') = REPORTS_DIR e @ [rid @ ''.json'']"
    by (simp add: path_join_segment segment_json)
  with a show "put_status e rid st w =
        (\<lparr>code = 404, body = error_body ''Reporte no encontrado''\<rparr>, w\<lparr>tick := Suc (tick w)\<rparr>)"
    by (simp add: put_status_def update_status_missing not_found_def res_json_def advance_def
        report_file_def)
qed

text \<open>
  Where the specification's sentence C2 fails. No record exists for the identifier, the
  status is not of the set, and the answer is 400, not 404. And the reports directory has
  no record for the identifier \<^verbatim>\<open>../reports/old\<close>, the status is of the set, and the
  answer is 200: the path leads back to the record \<^verbatim>\<open>old\<close>.
\<close>

theorem C2_counterexample:
  "report_file env_ok world_empty (''nope'' @ ''.json'') = None \<and>
   put_status env_ok ''nope'' (Some (JStr ''archived'')) world_empty =
     (\<lparr>code = 400, body = error_body invalid_status_msg\<rparr>, world_empty) \<and>
   code (fst (put_status env_ok ''nope'' (Some (JStr ''archived'')) world_empty)) \<noteq> 404 \<and>
   report_file env_ok world_legacy (''../reports/old'' @ ''.json'') = None \<and>
   valid_status (Some (JStr ''attended'')) \<and>
   code (fst (put_status env_ok ''../reports/old'' (Some (JStr ''attended'')) world_legacy)) = 200 \<and>
   code (fst (put_status env_ok ''../reports/old'' (Some (JStr ''attended'')) world_legacy)) \<noteq> 404"
proof -
  have 1: "put_status env_ok ''nope'' (Some (JStr ''archived'')) world_empty =
     (\<lparr>code = 400, body = error_body invalid_status_msg\<rparr>, world_empty)"
    by (simp add: world_empty_def put_status_def update_status_def allowed_def return_io_def
        invalid_status_def res_json_def)
  have 2: "report_file env_ok world_empty (''nope'' @ ''.json'') = None"
    by (simp add: world_empty_def report_file_def)
  have 3: "report_file env_ok world_legacy (''../reports/old'' @ ''.json'') = None"
    by (simp add: world_legacy_def report_file_def REPORTS_DIR_def env_ok_def)
  have 4: "valid_status (Some (JStr ''attended''))" by (simp add: valid_status_def)
  from 1 2 3 4 legacy_traversal show ?thesis by simp
qed

theorem C2_update_errors_witness:
  "\<not> valid_status (Some (JStr ''archived'')) \<and>
   stored_field env_ok world_one ''id-14'' ''status'' = Some (JStr ''pending'') \<and>
   put_status env_ok ''id-14'' (Some (JStr ''archived'')) world_one =
     (\<lparr>code = 400, body = error_body invalid_status_msg\<rparr>, world_one) \<and>
   valid_status (Some (JStr ''attended'')) \<and>
   map_of (files world_empty) (path_join (REPORTS_DIR env_ok) (''../nope'' @ ''.json'')) = None \<and>
   path_join (REPORTS_DIR env_ok) (''../nope'' @ ''.json'') \<notin> set (dirs world_empty) \<and>
   put_status env_ok ''../nope'' (Some (JStr ''attended'')) world_empty =
     (\<lparr>code = 404, body = error_body ''Reporte no encontrado''\<rparr>, world_empty\<lparr>tick := Suc (tick world_empty)\<rparr>) \<and>
   CHR ''/'' \<notin> set ''nope'' \<and>
   report_file env_ok world_empty (''nope'' @ ''.json'') = None \<and>
   REPORTS_DIR env_ok @ [''nope'' @ ''.json''] \<notin> set (dirs world_empty) \<and>
   put_status env_ok ''nope'' (Some (JStr ''attended'')) world_empty =
     (\<lparr>code = 404, body = error_body ''Reporte no encontrado''\<rparr>, world_empty\<lparr>tick := Suc (tick world_empty)\<rparr>)"
proof -
  have 1: "\<not> valid_status (Some (JStr ''archived''))" by (simp add: valid_status_def)
  have 2: "valid_status (Some (JStr ''attended''))" by (simp add: valid_status_def)
  have 3: "map_of (files world_empty) (path_join (REPORTS_DIR env_ok) (''../nope'' @ ''.json'')) = None"
    by (simp add: world_empty_def)
  have 4: "path_join (REPORTS_DIR env_ok) (''../nope'' @ ''.json'') \<notin> set (dirs world_empty)"
    by (simp add: world_empty_def path_join_def REPORTS_DIR_def env_ok_def)
  have 5: "CHR ''/'' \<notin> set ''nope''" by simp
  have 6: "report_file env_ok world_empty (''nope'' @ ''.json'') = None"
    by (simp add: world_empty_def report_file_def)
  have 7: "REPORTS_DIR env_ok @ [''nope'' @ ''.json''] \<notin> set (dirs world_empty)"
    by (simp add: world_empty_def REPORTS_DIR_def env_ok_def)
  from C2_update_errors[where st = "Some (JStr ''archived'')" and e = env_ok and rid = "''id-14''" and w = world_one]
       C2_update_errors[where st = "Some (JStr ''attended'')" and e = env_ok and rid = "''../nope''" and w = world_empty]
       C2_update_errors[where st = "Some (JStr ''attended'')" and e = env_ok and rid = "''nope''" and w = world_empty]
       1 2 3 4 5 6 7 world_one_status
  show ?thesis by simp
qed

text \<open>
  C3, as the code has it. For a submission whose required fields are strings where they
  are present, the required-field rules hold in the order of \<open>required_fields\<close>: the first
  rule the submission violates decides the error, whose message starts with the name of
  the field; messages of different fields differ; the response is 400 and the world is
  left as it was (no directory is made, no file written). A submission violating no rule
  passes.
\<close>

theorem C3_validation:
  assumes "text_fields s"
  shows "(case first_violation s of
      None \<Rightarrow> validate e s = None
    | Some field \<Rightarrow>
        (\<exists>m. validate e s = Some (Error m) \<and> take (length field) m = field \<and>
             post_reports e s w = (\<lparr>code = 400, body = error_body m\<rparr>, w))) \<and>
   (\<forall>s'. text_fields s' \<and> first_violation s' \<noteq> first_violation s \<longrightarrow>
      validate e s' \<noteq> validate e s)"
proof (intro conjI allI impI)
  show "case first_violation s of
      None \<Rightarrow> validate e s = None
    | Some field \<Rightarrow>
        (\<exists>m. validate e s = Some (Error m) \<and> take (length field) m = field \<and>
             post_reports e s w = (\<lparr>code = 400, body = error_body m\<rparr>, w))"
    using first_violation_cases[of s]
    by (auto simp: validate_first_violation[OF assms] post_reports_invalid msg_defs)
next
  fix s' assume a: "text_fields s' \<and> first_violation s' \<noteq> first_violation s"
  then have t: "text_fields s'" and d: "first_violation s' \<noteq> first_violation s" by simp_all
  from d show "validate e s' \<noteq> validate e s"
    using first_violation_cases[of s] first_violation_cases[of s']
    by (auto simp: validate_first_violation[OF assms] validate_first_violation[OF t] msg_defs)
qed

text \<open>
  Where the specification's sentence C3 fails: the owner's name is \<^verbatim>\<open>true\<close>, which
  is no text of two code units or more; the rules of the code let it pass, the report is
  created and the name stored.
\<close>

theorem C3_counterexample:
  "\<not> rule_ownerName sub_true_name \<and>
   first_violation sub_true_name = Some ''ownerName'' \<and>
   validate env_ok sub_true_name = None \<and>
   fst (post_reports env_ok sub_true_name world_empty) =
     \<lparr>code = 201, body = JObj [(''reportId'', JStr ''id-14'')]\<rparr> \<and>
   stored_field env_ok (snd (post_reports env_ok sub_true_name world_empty)) ''id-14'' ''ownerName'' =
     Some (JBool True)"
proof -
  have 1: "\<not> rule_ownerName sub_true_name"
    by (simp add: rule_ownerName_def at_least_def sub_true_name_def)
  have 2: "first_violation sub_true_name = Some ''ownerName''"
    by (simp add: first_violation_def required_fields_def rule_defs at_least_def sub_true_name_def)
  from 1 2 true_name_created show ?thesis by simp
qed

theorem C3_validation_witness:
  "text_fields (sub_ok\<lparr>ownerName := Some (JStr ''A'')\<rparr>) \<and> text_fields sub_ok \<and>
   first_violation (sub_ok\<lparr>ownerName := Some (JStr ''A'')\<rparr>) = Some ''ownerName'' \<and>
   post_reports env_ok (sub_ok\<lparr>ownerName := Some (JStr ''A'')\<rparr>) world_empty =
     (\<lparr>code = 400, body = error_body ownerName_msg\<rparr>, world_empty) \<and>
   first_violation sub_ok = None \<and>
   validate env_ok sub_ok \<noteq> validate env_ok (sub_ok\<lparr>ownerName := Some (JStr ''A'')\<rparr>)"
proof -
  have 0: "text_fields (sub_ok\<lparr>ownerName := Some (JStr ''A'')\<rparr>)" and 00: "text_fields sub_ok"
    by (simp_all add: text_fields_def sub_ok_def)
  have 1: "first_violation (sub_ok\<lparr>ownerName := Some (JStr ''A'')\<rparr>) = Some ''ownerName''"
    by (simp add: first_violation_def required_fields_def rule_defs at_least_def sub_ok_def)
  have 2: "first_violation sub_ok = None"
    by (simp add: first_violation_def required_fields_def rule_defs at_least_def sub_ok_def)
  have 3: "validate env_ok (sub_ok\<lparr>ownerName := Some (JStr ''A'')\<rparr>) = Some (Error ownerName_msg)"
    by (simp add: validate_def check_length_def sub_ok_def)
  from C3_validation[OF 0, of env_ok world_empty] 0 00 1 2 3
  show ?thesis by auto
qed

text \<open>
  C4, as the code has it. (1) On a string the decoder throws the format error exactly when the string
  does not match the pattern. (2) Whatever the handler's \<^verbatim>\<open>try\<close> block throws is answered
  with 400 and the error's message; a malformed attachment makes the answer 400, and when
  the rules pass, the file system does not fail and all attachments are strings, the
  message is the format error. (3) When the mime type contains \<^verbatim>\<open>/\<close>, the extension is the
  text after its first \<^verbatim>\<open>/\<close> up to the next \<^verbatim>\<open>/\<close> (or to the end), whatever that text is,
  and the file is stored under it (the prefix of the name being one of the program's,
  which hold no \<^verbatim>\<open>/\<close>).
\<close>

theorem C4_malformed_attachment:
  "(fst (saveBase64Image e (Some (JStr str)) prefix w) = Inl (Error ''Invalid base64 string format'')
      \<longleftrightarrow> \<not> data_uri_pattern str) \<and>
   (\<forall>err w'. create_report e s w = (Inl err, w') \<longrightarrow>
      post_reports e s w = (\<lparr>code = 400, body = error_body (message err)\<rparr>, w')) \<and>
   (list_ex malformed (attachments s) \<longrightarrow> code (fst (post_reports e s w)) = 400) \<and>
   (validate e s = None \<and> (\<forall>t. \<not> fault e t) \<and> list_all is_text (attachments s) \<and>
    list_ex malformed (attachments s) \<longrightarrow>
      fst (post_reports e s w) = \<lparr>code = 400, body = error_body ''Invalid base64 string format''\<rparr>) \<and>
   (\<forall>a b p. match_data_uri str = Some (a @ CHR ''/'' # b, p) \<and> CHR ''/'' \<notin> set a \<longrightarrow>
      extension_of (Some (JStr str)) = Some (takeWhile (\<lambda>c. c \<noteq> CHR ''/'') b) \<and>
      (UPLOADS_DIR e \<in> set (dirs w) \<and> \<not> fault e (Suc (Suc (tick w))) \<and> CHR ''/'' \<notin> set prefix \<longrightarrow>
         saveBase64Image e (Some (JStr str)) prefix w =
           (Inr (''/uploads/'' @ file_name prefix (clock e (tick w)) (random e (Suc (tick w)) mod 10000)
                  (Some (takeWhile (\<lambda>c. c \<noteq> CHR ''/'') b))),
            w\<lparr>files := AList.update
                 (UPLOADS_DIR e @ [file_name prefix (clock e (tick w)) (random e (Suc (tick w)) mod 10000)
                    (Some (takeWhile (\<lambda>c. c \<noteq> CHR ''/'') b))]) (base64 e p) (files w),
              tick := Suc (Suc (Suc (tick w)))\<rparr>)))"
proof (intro conjI allI impI)
  show "fst (saveBase64Image e (Some (JStr str)) prefix w) = Inl (Error ''Invalid base64 string format'')
      \<longleftrightarrow> \<not> data_uri_pattern str"
    by (simp add: sbi_format_error_iff match_data_uri_pattern)
next
  fix err w' assume "create_report e s w = (Inl err, w')"
  then show "post_reports e s w = (\<lparr>code = 400, body = error_body (message err)\<rparr>, w')"
    by (simp add: post_reports_def res_json_def)
next
  assume "list_ex malformed (attachments s)"
  then have "\<not> list_all decodable (attachments s)"
    by (auto simp: list_ex_iff list_all_iff dest: malformed_not_decodable)
  with create_report_Inr_decodable[of e s w] have "\<And>rid w'. create_report e s w \<noteq> (Inr rid, w')"
    by blast
  then show "code (fst (post_reports e s w)) = 400"
    by (cases "create_report e s w") (auto simp: post_reports_def res_json_def split: sum.splits)
next
  assume a: "validate e s = None \<and> (\<forall>t. \<not> fault e t) \<and> list_all is_text (attachments s) \<and>
    list_ex malformed (attachments s)"
  then have "\<not> list_all decodable (attachments s)"
    by (auto simp: list_ex_iff list_all_iff dest: malformed_not_decodable)
  with a create_report_format_error[of e s w] obtain w' where
    "create_report e s w = (Inl (Error ''Invalid base64 string format''), w')" by blast
  then show "fst (post_reports e s w) = \<lparr>code = 400, body = error_body ''Invalid base64 string format''\<rparr>"
    by (simp add: post_reports_def res_json_def)
next
  fix a b p
  assume m: "match_data_uri str = Some (a @ CHR ''/'' # b, p) \<and> CHR ''/'' \<notin> set a"
  then show "extension_of (Some (JStr str)) = Some (takeWhile (\<lambda>c. c \<noteq> CHR ''/'') b)"
    by (simp add: extension_of_slash)
next
  fix a b p
  assume m: "match_data_uri str = Some (a @ CHR ''/'' # b, p) \<and> CHR ''/'' \<notin> set a"
    and u: "UPLOADS_DIR e \<in> set (dirs w) \<and> \<not> fault e (Suc (Suc (tick w))) \<and> CHR ''/'' \<notin> set prefix"
  from u have d: "UPLOADS_DIR e \<in> set (dirs w)" and nf: "\<not> fault e (Suc (Suc (tick w)))"
    and pf: "CHR ''/'' \<notin> set prefix" by auto
  from m have mt: "match_data_uri str = Some (a @ CHR ''/'' # b, p)" and na: "CHR ''/'' \<notin> set a"
    by simp_all
  show "saveBase64Image e (Some (JStr str)) prefix w =
           (Inr (''/uploads/'' @ file_name prefix (clock e (tick w)) (random e (Suc (tick w)) mod 10000)
                  (Some (takeWhile (\<lambda>c. c \<noteq> CHR ''/'') b))),
            w\<lparr>files := AList.update
                 (UPLOADS_DIR e @ [file_name prefix (clock e (tick w)) (random e (Suc (tick w)) mod 10000)
                    (Some (takeWhile (\<lambda>c. c \<noteq> CHR ''/'') b))]) (base64 e p) (files w),
              tick := Suc (Suc (Suc (tick w)))\<rparr>)"
    unfolding sbi_match[OF mt d nf pf] by (simp add: second_split_on_some[OF na])
qed

text \<open>
  The specification's sentence C4 fails where the mime type has a second \<^verbatim>\<open>/\<close>: the text after \<^verbatim>\<open>/\<close> is
  \<^verbatim>\<open>png/x\<close>, the file is stored as \<^verbatim>\<open>.png\<close>.
\<close>

theorem C4_counterexample:
  "data_uri_pattern ''data:image/png/x;base64,AAAA'' \<and>
   match_data_uri ''data:image/png/x;base64,AAAA'' = Some (''image/png/x'', ''AAAA'') \<and>
   text_after_slash ''image/png/x'' = ''png/x'' \<and>
   fst (saveBase64Image env_ok (Some (JStr ''data:image/png/x;base64,AAAA'')) ''photo'' world_dirs) =
     Inr ''/uploads/photo-1000-7.png'' \<and>
   fst (saveBase64Image env_ok (Some (JStr ''data:image/png/x;base64,AAAA'')) ''photo'' world_dirs) \<noteq>
     Inr (''/uploads/'' @ file_name ''photo'' 1000 7 (Some (text_after_slash ''image/png/x'')))"
proof -
  have 1: "data_uri_pattern ''data:image/png/x;base64,AAAA''"
    by (simp add: data_uri_pattern_match match_two_slashes)
  have 2: "text_after_slash ''image/png/x'' = ''png/x''" by (simp add: text_after_slash_def)
  have 3: "fst (saveBase64Image env_ok (Some (JStr ''data:image/png/x;base64,AAAA'')) ''photo'' world_dirs) =
     Inr ''/uploads/photo-1000-7.png''"
    by (simp add: env_ok_def world_dirs_def handler_eval io_eval match_eval)
  have 4: "file_name ''photo'' 1000 7 (Some ''png/x'') = ''photo-1000-7.png/x''"
    by (simp add: file_name_def decimal.simps digit_def)
  from 1 2 3 4 match_two_slashes show ?thesis by simp
qed

theorem C4_malformed_attachment_witness:
  "\<not> data_uri_pattern ''image/png;base64,AAAA'' \<and>
   fst (saveBase64Image env_ok (Some (JStr ''image/png;base64,AAAA'')) ''ownerSign'' world_dirs) =
     Inl (Error ''Invalid base64 string format'') \<and>
   list_ex malformed (attachments sub_bad_signature) \<and>
   fst (post_reports env_ok sub_bad_signature world_empty) =
     \<lparr>code = 400, body = error_body ''Invalid base64 string format''\<rparr> \<and>
   extension_of (Some (JStr ''data:image/png/x;base64,AAAA'')) = Some ''png'' \<and>
   fst (saveBase64Image env_ok (Some (JStr ''data:image/png/x;base64,AAAA'')) ''photo'' world_dirs) =
     Inr ''/uploads/photo-1000-7.png'' \<and>
   upload_file env_ok (snd (saveBase64Image env_ok (Some (JStr ''data:image/png/x;base64,AAAA'')) ''photo'' world_dirs))
     ''photo-1000-7.png'' = Some (Unparseable [0, 0, 0])"
proof -
  have 1: "\<not> data_uri_pattern ''image/png;base64,AAAA''"
    by (simp add: data_uri_pattern_match match_no_prefix)
  then have "malformed (Some (JStr ''image/png;base64,AAAA''))" by (simp add: malformed_def)
  then have 2: "list_ex malformed (attachments sub_bad_signature)"
    by (simp add: attachments_def sub_bad_signature_def sub_ok_def)
  have 3: "validate env_ok sub_bad_signature = None"
    by (simp add: validate_def check_length_def check_present_def sub_bad_signature_def sub_ok_def)
  have 4: "\<forall>t. \<not> fault env_ok t" by (simp add: env_ok_def)
  have 5: "list_all is_text (attachments sub_bad_signature)"
    by (simp add: attachments_def sub_bad_signature_def sub_ok_def photo_list_def)
  have 6: "match_data_uri ''data:image/png/x;base64,AAAA'' = Some (''image'' @ CHR ''/'' # ''png/x'', ''AAAA'')"
    by (simp add: match_two_slashes)
  have 7: "CHR ''/'' \<notin> set ''image''" by simp
  have 8: "UPLOADS_DIR env_ok \<in> set (dirs world_dirs) \<and> \<not> fault env_ok (Suc (Suc (tick world_dirs))) \<and>
      CHR ''/'' \<notin> set ''photo''"
    by (simp add: world_dirs_def env_ok_def UPLOADS_DIR_def)
  have 9: "file_name ''photo'' (clock env_ok (tick world_dirs)) (random env_ok (Suc (tick world_dirs)) mod 10000) (Some ''png'')
    = ''photo-1000-7.png''"
    by (simp add: file_name_def decimal.simps digit_def env_ok_def world_dirs_def)
  have 10: "base64 env_ok ''AAAA'' = Unparseable [0, 0, 0]" by (simp add: env_ok_def)
  note A = C4_malformed_attachment[where e = env_ok and str = "''image/png;base64,AAAA''"
      and prefix = "''ownerSign''" and w = world_dirs and s = sub_bad_signature]
  note B = C4_malformed_attachment[where e = env_ok and str = "''data:image/png/x;base64,AAAA''"
      and prefix = "''photo''" and w = world_empty and s = sub_bad_signature]
  note C = C4_malformed_attachment[where e = env_ok and str = "''data:image/png/x;base64,AAAA''"
      and prefix = "''photo''" and w = world_dirs and s = sub_bad_signature]
  from A 1 have a: "fst (saveBase64Image env_ok (Some (JStr ''image/png;base64,AAAA'')) ''ownerSign'' world_dirs) =
     Inl (Error ''Invalid base64 string format'')" by blast
  from B 2 3 4 5 have b: "fst (post_reports env_ok sub_bad_signature world_empty) =
     \<lparr>code = 400, body = error_body ''Invalid base64 string format''\<rparr>" by blast
  from C 6 7 have c: "extension_of (Some (JStr ''data:image/png/x;base64,AAAA'')) =
      Some (takeWhile (\<lambda>c. c \<noteq> CHR ''/'') ''png/x'')" by blast
  from C 6 7 8 have d: "saveBase64Image env_ok (Some (JStr ''data:image/png/x;base64,AAAA'')) ''photo'' world_dirs =
           (Inr (''/uploads/'' @ file_name ''photo'' (clock env_ok (tick world_dirs)) (random env_ok (Suc (tick world_dirs)) mod 10000)
                  (Some (takeWhile (\<lambda>c. c \<noteq> CHR ''/'') ''png/x''))),
            world_dirs\<lparr>files := AList.update
                 (UPLOADS_DIR env_ok @ [file_name ''photo'' (clock env_ok (tick world_dirs)) (random env_ok (Suc (tick world_dirs)) mod 10000)
                    (Some (takeWhile (\<lambda>c. c \<noteq> CHR ''/'') ''png/x''))]) (base64 env_ok ''AAAA'') (files world_dirs),
              tick := Suc (Suc (Suc (tick world_dirs)))\<rparr>)" by blast
  have e: "fst (saveBase64Image env_ok (Some (JStr ''data:image/png/x;base64,AAAA'')) ''photo'' world_dirs) =
     Inr ''/uploads/photo-1000-7.png''"
    unfolding d using 9 by simp
  have f: "upload_file env_ok (snd (saveBase64Image env_ok (Some (JStr ''data:image/png/x;base64,AAAA'')) ''photo'' world_dirs))
     ''photo-1000-7.png'' = Some (Unparseable [0, 0, 0])"
    unfolding d using 9 10 by (simp add: upload_file_def update_conv')
  from 1 2 a b c e f show ?thesis by simp
qed

text \<open>
  C5. A status of the set, an existing report, a file system that does not fail: the answer
  is 200 with the updated record, which is the stored record, as \<^verbatim>\<open>JSON.stringify\<close>
  prints it, with only \<^verbatim>\<open>status\<close> overwritten; the other fields keep their order, and
  their values as printed. For a record that \<^verbatim>\<open>JSON.stringify\<close> wrote (printed, it is
  itself: such are all the records the program writes) the other fields are identical to
  before. The other files stay as they were, and a following \<^verbatim>\<open>GET /reports\<close> (every
  stored report being readable) lists the updated record.
\<close>

theorem C5_update_frame:
  assumes "valid_status st" and "REPORTS_DIR e \<in> set (dirs w)"
    and "report_file e w (rid @ ''.json'') = Some (JsonText (JObj ps))"
    and "\<forall>t. \<not> fault e t" and "readable e w"
  shows "\<exists>v ps' w'. st = Some v \<and>
           ps' = AList.update ''status'' v (map (map_prod id printed) ps) \<and>
           put_status e rid st w = (\<lparr>code = 200, body = JObj ps'\<rparr>, w') \<and>
           files w' = AList.update (REPORTS_DIR e @ [rid @ ''.json'']) (JsonText (JObj ps')) (files w) \<and>
           dirs w' = dirs w \<and>
           map_of ps' ''status'' = Some v \<and>
           (\<forall>k. k \<noteq> ''status'' \<longrightarrow> map_of ps' k = map_option printed (map_of ps k)) \<and>
           filter (\<lambda>p. fst p \<noteq> ''status'') ps' =
             filter (\<lambda>p. fst p \<noteq> ''status'') (map (map_prod id printed) ps) \<and>
           (printed (JObj ps) = JObj ps \<longrightarrow>
              ps' = AList.update ''status'' v ps \<and>
              (\<forall>k. k \<noteq> ''status'' \<longrightarrow> map_of ps' k = map_of ps k) \<and>
              filter (\<lambda>p. fst p \<noteq> ''status'') ps' = filter (\<lambda>p. fst p \<noteq> ''status'') ps) \<and>
           (\<forall>name. name \<noteq> rid @ ''.json'' \<longrightarrow> report_file e w' name = report_file e w name) \<and>
           (\<forall>name. upload_file e w' name = upload_file e w name) \<and>
           (\<exists>rs w''. get_reports e w' = (\<lparr>code = 200, body = JArr rs\<rparr>, w'') \<and> JObj ps' \<in> set rs)"
proof -
  from assms(1) obtain v where st: "st = Some v" and v: "v \<in> set allowed"
    by (auto simp: valid_status_iff)
  from v have pv: "printed v = v" by (rule allowed_printed)
  from v obtain c cs where vs: "v = JStr (c # cs)" by (auto simp: allowed_def)
  define ps' where "ps' = AList.update ''status'' v (map (map_prod id printed) ps)"
  have pr': "map (map_prod id printed) (AList.update ''status'' v ps) = ps'"
    by (simp add: ps'_def update_printed[OF pv])
  then have pr: "printed (JObj (AList.update ''status'' v ps)) = JObj ps'" by simp
  from report_file_in_names[OF assms(3)] assms(5) have sg: "segment (rid @ ''.json'')"
    by (auto simp: readable_def list_all_iff endsWith_json)
  then have pth: "path_join (REPORTS_DIR e) (rid @ ''.json'') = REPORTS_DIR e @ [rid @ ''.json'']"
    by (rule path_join_segment)
  define w' where "w' = w\<lparr>files := AList.update (REPORTS_DIR e @ [rid @ ''.json'']) (JsonText (JObj ps')) (files w),
              tick := Suc (Suc (Suc (tick w)))\<rparr>"
  from assms(3) have l: "map_of (files w) (path_join (REPORTS_DIR e) (rid @ ''.json'')) = Some (JsonText (JObj ps))"
    by (simp add: report_file_def pth)
  have d: "butlast (path_join (REPORTS_DIR e) (rid @ ''.json'')) \<in> set (dirs w)"
    and ne: "path_join (REPORTS_DIR e) (rid @ ''.json'') \<noteq> []"
    using assms(2) by (simp_all add: pth)
  have put: "put_status e rid st w = (\<lparr>code = 200, body = JObj ps'\<rparr>, w')"
    unfolding st put_status_def update_status_ok[OF v l d ne assms(4)]
    by (simp add: res_json_def pr' pth w'_def)
  have fl: "files w' = AList.update (REPORTS_DIR e @ [rid @ ''.json'']) (JsonText (JObj ps')) (files w)"
    and dr: "dirs w' = dirs w"
    by (simp_all add: w'_def)
  have status: "map_of ps' ''status'' = Some v" by (simp add: ps'_def update_conv')
  have others: "\<forall>k. k \<noteq> ''status'' \<longrightarrow> map_of ps' k = map_option printed (map_of ps k)"
    by (simp add: ps'_def update_conv' map_of_printed)
  have order: "filter (\<lambda>p. fst p \<noteq> ''status'') ps' =
      filter (\<lambda>p. fst p \<noteq> ''status'') (map (map_prod id printed) ps)"
    by (simp add: ps'_def filter_update_other)
  have canon: "printed (JObj ps) = JObj ps \<longrightarrow>
              ps' = AList.update ''status'' v ps \<and>
              (\<forall>k. k \<noteq> ''status'' \<longrightarrow> map_of ps' k = map_of ps k) \<and>
              filter (\<lambda>p. fst p \<noteq> ''status'') ps' = filter (\<lambda>p. fst p \<noteq> ''status'') ps"
  proof
    assume "printed (JObj ps) = JObj ps"
    then have c: "map (map_prod id printed) ps = ps" by simp
    show "ps' = AList.update ''status'' v ps \<and>
              (\<forall>k. k \<noteq> ''status'' \<longrightarrow> map_of ps' k = map_of ps k) \<and>
              filter (\<lambda>p. fst p \<noteq> ''status'') ps' = filter (\<lambda>p. fst p \<noteq> ''status'') ps"
      unfolding ps'_def c by (simp add: update_conv' filter_update_other)
  qed
  have reps: "\<forall>name. name \<noteq> rid @ ''.json'' \<longrightarrow> report_file e w' name = report_file e w name"
    by (simp add: report_file_def fl update_conv')
  have ups: "\<forall>name. upload_file e w' name = upload_file e w name"
    by (simp add: upload_file_def fl update_conv')
  from readable_write[OF assms(5) _ sg, of "JsonText (JObj ps')"]
  have "readable e (w\<lparr>files := AList.update (REPORTS_DIR e @ [rid @ ''.json'']) (JsonText (JObj ps')) (files w)\<rparr>)"
    by simp
  moreover have "files w' = files (w\<lparr>files := AList.update (REPORTS_DIR e @ [rid @ ''.json'']) (JsonText (JObj ps')) (files w)\<rparr>)"
    and "dirs w' = dirs (w\<lparr>files := AList.update (REPORTS_DIR e @ [rid @ ''.json'']) (JsonText (JObj ps')) (files w)\<rparr>)"
    by (simp_all add: w'_def)
  ultimately have rd': "readable e w'" using readable_cong by blast
  have look: "report_file e w' (rid @ ''.json'') = Some (JsonText (JObj ps'))"
    by (simp add: report_file_def fl update_conv')
  from assms(2) dr have rdd: "REPORTS_DIR e \<in> set (dirs w')" by simp
  from get_reports_includes[OF assms(4) rdd rd' look] obtain rs w'' where
    g: "get_reports e w' = (\<lparr>code = 200, body = JArr rs\<rparr>, w'')" and
    m: "printed (JObj (backfilled ps')) \<in> set rs" by blast
  from status vs have "backfilled ps' = ps'" by (simp add: backfilled_status)
  moreover have "printed (JObj ps') = JObj ps'"
    using printed_idem[of "JObj (AList.update ''status'' v ps)"] by (simp only: pr)
  ultimately have "JObj ps' \<in> set rs" using m by simp
  with g have get: "\<exists>rs w''. get_reports e w' = (\<lparr>code = 200, body = JArr rs\<rparr>, w'') \<and> JObj ps' \<in> set rs"
    by auto
  have def: "ps' = AList.update ''status'' v (map (map_prod id printed) ps)" by (rule ps'_def)
  show ?thesis
    apply (rule exI[of _ v], rule exI[of _ ps'], rule exI[of _ w'])
    apply (intro conjI)
    apply (rule st def put fl dr status others order canon reps ups get)+
    done
qed

theorem C5_update_frame_witness:
  "valid_status (Some (JStr ''attended'')) \<and> readable env_ok world_one \<and>
   REPORTS_DIR env_ok \<in> set (dirs world_one) \<and>
   report_file env_ok world_one (''id-14'' @ ''.json'') = Some (JsonText (JObj record_one)) \<and>
   printed (JObj record_one) = JObj record_one \<and>
   fst (put_status env_ok ''id-14'' (Some (JStr ''attended'')) world_one) =
     \<lparr>code = 200, body = JObj (AList.update ''status'' (JStr ''attended'') record_one)\<rparr> \<and>
   stored_field env_ok (snd (put_status env_ok ''id-14'' (Some (JStr ''attended'')) world_one)) ''id-14'' ''status'' =
     Some (JStr ''attended'') \<and>
   (\<exists>rs w''. get_reports env_ok (snd (put_status env_ok ''id-14'' (Some (JStr ''attended'')) world_one)) =
       (\<lparr>code = 200, body = JArr rs\<rparr>, w'') \<and>
     JObj (AList.update ''status'' (JStr ''attended'') record_one) \<in> set rs)"
proof -
  have 1: "valid_status (Some (JStr ''attended''))" by (simp add: valid_status_def)
  have 2: "report_file env_ok world_one (''id-14'' @ ''.json'') = Some (JsonText (JObj record_one))"
    using world_one_report by simp
  have 3: "REPORTS_DIR env_ok \<in> set (dirs world_one)"
    by (simp add: world_one_files REPORTS_DIR_def env_ok_def)
  from C5_update_frame[OF 1 3 2 env_ok_no_fault world_one_readable]
  obtain v ps' w' rs w'' where
    v: "Some (JStr ''attended'') = Some v" and
    put: "put_status env_ok ''id-14'' (Some (JStr ''attended'')) world_one = (\<lparr>code = 200, body = JObj ps'\<rparr>, w')" and
    fl: "files w' = AList.update (REPORTS_DIR env_ok @ [''id-14'' @ ''.json'']) (JsonText (JObj ps')) (files world_one)" and
    st: "map_of ps' ''status'' = Some v" and
    canon: "printed (JObj record_one) = JObj record_one \<longrightarrow>
              ps' = AList.update ''status'' v record_one \<and>
              (\<forall>k. k \<noteq> ''status'' \<longrightarrow> map_of ps' k = map_of record_one k) \<and>
              filter (\<lambda>p. fst p \<noteq> ''status'') ps' = filter (\<lambda>p. fst p \<noteq> ''status'') record_one" and
    get: "get_reports env_ok w' = (\<lparr>code = 200, body = JArr rs\<rparr>, w'')" and
    mem: "JObj ps' \<in> set rs"
    by (elim exE conjE) (rule that; assumption)
  from v have v': "v = JStr ''attended''" by simp
  from canon record_one_printed have ps': "ps' = AList.update ''status'' v record_one" by simp
  have sf: "stored_field env_ok w' ''id-14'' ''status'' = Some (JStr ''attended'')"
    using st by (simp add: stored_field_def report_file_def fl update_conv' v')
  from put have f: "fst (put_status env_ok ''id-14'' (Some (JStr ''attended'')) world_one) =
      \<lparr>code = 200, body = JObj (AList.update ''status'' (JStr ''attended'') record_one)\<rparr>"
    and s: "snd (put_status env_ok ''id-14'' (Some (JStr ''attended'')) world_one) = w'"
    by (simp_all add: ps' v')
  from get mem have g: "\<exists>rs w''. get_reports env_ok w' = (\<lparr>code = 200, body = JArr rs\<rparr>, w'') \<and>
     JObj (AList.update ''status'' (JStr ''attended'') record_one) \<in> set rs"
    unfolding ps' v' by blast
  show ?thesis
    unfolding s f using 1 world_one_readable 2 3 record_one_printed sf g by (intro conjI) simp_all
qed

text \<open>
  C6, as the code has it. Listing and updating answer every error of their \<^verbatim>\<open>try\<close> block with 500
  and a fixed message that holds nothing of the error: in particular a file-system call
  that fails while the directory is enumerated or a report is read (listing), or while the
  report is read or written back (updating).
\<close>

theorem C6_io_errors:
  "(\<forall>err. fst (list_reports e w) = Inl err \<longrightarrow>
      fst (get_reports e w) = \<lparr>code = 500, body = error_body ''Error reading reports''\<rparr>) \<and>
   (\<forall>t. tick w \<le> t \<and> t < tick (snd (get_reports e w)) \<and> fault e t \<longrightarrow>
      fst (get_reports e w) = \<lparr>code = 500, body = error_body ''Error reading reports''\<rparr>) \<and>
   (\<forall>err. fst (update_status e rid st w) = Inl err \<longrightarrow>
      fst (put_status e rid st w) = \<lparr>code = 500, body = error_body update_failed_msg\<rparr>) \<and>
   (\<forall>t. tick w < t \<and> t < tick (snd (put_status e rid st w)) \<and> fault e t \<longrightarrow>
      fst (put_status e rid st w) = \<lparr>code = 500, body = error_body update_failed_msg\<rparr>)"
proof (intro conjI allI impI)
  fix err assume "fst (list_reports e w) = Inl err"
  then show "fst (get_reports e w) = \<lparr>code = 500, body = error_body ''Error reading reports''\<rparr>"
    by (simp add: get_reports_split)
next
  fix t assume a: "tick w \<le> t \<and> t < tick (snd (get_reports e w)) \<and> fault e t"
  show "fst (get_reports e w) = \<lparr>code = 500, body = error_body ''Error reading reports''\<rparr>"
  proof (cases "fst (list_reports e w)")
    case (Inl err) then show ?thesis by (simp add: get_reports_split)
  next
    case (Inr rs)
    then have "list_reports e w = (Inr rs, snd (list_reports e w))" by (simp add: prod_eq_iff)
    from list_reports_no_fault[OF this, of t] a show ?thesis by (simp add: get_reports_split)
  qed
next
  fix err assume "fst (update_status e rid st w) = Inl err"
  then show "fst (put_status e rid st w) = \<lparr>code = 500, body = error_body update_failed_msg\<rparr>"
    by (simp add: put_status_split)
next
  fix t assume a: "tick w < t \<and> t < tick (snd (put_status e rid st w)) \<and> fault e t"
  show "fst (put_status e rid st w) = \<lparr>code = 500, body = error_body update_failed_msg\<rparr>"
  proof (cases "fst (update_status e rid st w)")
    case (Inl err) then show ?thesis by (simp add: put_status_split)
  next
    case (Inr r)
    then have "update_status e rid st w = (Inr r, snd (update_status e rid st w))"
      by (simp add: prod_eq_iff)
    from update_status_Inr_no_fault[OF this, of t] a show ?thesis by (simp add: put_status_split)
  qed
qed

text \<open>
  The specification's sentence C6 fails for creating: the first directory call fails, and the answer is 400
  with the file system's message.
\<close>

theorem C6_counterexample:
  "validate env_fault0 sub_ok = None \<and> fault env_fault0 (tick world_empty) \<and>
   sys_message env_fault0 (tick world_empty) = ''EIO: i/o error'' \<and>
   fst (post_reports env_fault0 sub_ok world_empty) =
     \<lparr>code = 400, body = error_body ''EIO: i/o error''\<rparr> \<and>
   code (fst (post_reports env_fault0 sub_ok world_empty)) \<noteq> 500"
  by (simp add: env_fault0_def env_ok_def sub_ok_def world_empty_def handler_eval io_eval match_eval)

theorem C6_io_errors_witness:
  "fault env_fault0 (tick world_dirs) \<and>
   fst (get_reports env_fault0 world_dirs) = \<lparr>code = 500, body = error_body ''Error reading reports''\<rparr> \<and>
   tick world_one < 18 \<and> 18 < tick (snd (put_status env_fault18 ''id-14'' (Some (JStr ''attended'')) world_one)) \<and>
   fault env_fault18 18 \<and>
   fst (put_status env_fault18 ''id-14'' (Some (JStr ''attended'')) world_one) =
     \<lparr>code = 500, body = error_body update_failed_msg\<rparr>"
proof -
  have 1: "fault env_fault0 (tick world_dirs)" by (simp add: env_fault0_def world_dirs_def)
  have 2: "tick world_dirs \<le> 0 \<and> 0 < tick (snd (get_reports env_fault0 world_dirs)) \<and> fault env_fault0 0"
    by (simp add: env_fault0_def env_ok_def world_dirs_def handler_eval io_eval)
  have 3: "tick world_one < 18 \<and> 18 < tick (snd (put_status env_fault18 ''id-14'' (Some (JStr ''attended'')) world_one)) \<and>
     fault env_fault18 18"
  proof (intro conjI)
    show "tick world_one < 18" by (simp add: world_one_tick)
    show "18 < tick (snd (put_status env_fault18 ''id-14'' (Some (JStr ''attended'')) world_one))"
      by (simp add: put_fault18)
    show "fault env_fault18 18" by (simp add: env_fault18_def)
  qed
  note A = C6_io_errors[where e = env_fault0 and w = world_dirs and rid = "''x''" and st = None]
  note B = C6_io_errors[where e = env_fault18 and w = world_one and rid = "''id-14''" and st = "Some (JStr ''attended'')"]
  from A 2 have a: "fst (get_reports env_fault0 world_dirs) = \<lparr>code = 500, body = error_body ''Error reading reports''\<rparr>"
    by blast
  from B 3 have b: "fst (put_status env_fault18 ''id-14'' (Some (JStr ''attended'')) world_one) =
     \<lparr>code = 500, body = error_body update_failed_msg\<rparr>" by blast
  from 1 3 a b show ?thesis by simp
qed




text \<open>
  C8. For an input that matches the pattern the decoder never raises an error on account
  of the payload: whatever the payload is, it is handed to \<^verbatim>\<open>Buffer.from\<close> and the bytes
  that come back are written. The decoder succeeds exactly when the write does; when the
  write fails, the error is the file system's. The prefix of the file name is one of the
  program's, which hold no \<^verbatim>\<open>/\<close>.
\<close>

theorem C8_payload_not_validated:
  assumes "match_data_uri s = Some (mimeType, base64Data)" and "CHR ''/'' \<notin> set prefix"
  shows "(UPLOADS_DIR e \<in> set (dirs w) \<and> \<not> fault e (Suc (Suc (tick w))) \<longrightarrow>
            (\<exists>name w'. saveBase64Image e (Some (JStr s)) prefix w = (Inr (''/uploads/'' @ name), w') \<and>
               upload_file e w' name = Some (base64 e base64Data))) \<and>
         (UPLOADS_DIR e \<notin> set (dirs w) \<or> fault e (Suc (Suc (tick w))) \<longrightarrow>
            fst (saveBase64Image e (Some (JStr s)) prefix w) =
              Inl (SystemError (sys_message e (Suc (Suc (tick w))))))"
proof (intro conjI impI)
  assume "UPLOADS_DIR e \<in> set (dirs w) \<and> \<not> fault e (Suc (Suc (tick w)))"
  then have d: "UPLOADS_DIR e \<in> set (dirs w)" and nf: "\<not> fault e (Suc (Suc (tick w)))" by auto
  show "\<exists>name w'. saveBase64Image e (Some (JStr s)) prefix w = (Inr (''/uploads/'' @ name), w') \<and>
               upload_file e w' name = Some (base64 e base64Data)"
    unfolding sbi_match[OF assms(1) d nf assms(2)] by (simp add: upload_file_def update_conv')
next
  assume "UPLOADS_DIR e \<notin> set (dirs w) \<or> fault e (Suc (Suc (tick w)))"
  from sbi_match_fail[OF assms(1) assms(2) this] show "fst (saveBase64Image e (Some (JStr s)) prefix w) =
              Inl (SystemError (sys_message e (Suc (Suc (tick w)))))" by simp
qed

theorem C8_payload_not_validated_witness:
  "match_data_uri ''data:image/jpeg;base64,!!!!'' = Some (''image/jpeg'', ''!!!!'') \<and>
   CHR ''/'' \<notin> set ''photo'' \<and>
   UPLOADS_DIR env_ok \<in> set (dirs world_dirs) \<and> \<not> fault env_ok (Suc (Suc (tick world_dirs))) \<and>
   (\<exists>name w'. saveBase64Image env_ok (Some (JStr ''data:image/jpeg;base64,!!!!'')) ''photo'' world_dirs =
       (Inr (''/uploads/'' @ name), w') \<and>
       upload_file env_ok w' name = Some (base64 env_ok ''!!!!'')) \<and>
   UPLOADS_DIR env_ok \<notin> set (dirs world_empty) \<and>
   fst (saveBase64Image env_ok (Some (JStr ''data:image/jpeg;base64,!!!!'')) ''photo'' world_empty) =
     Inl (SystemError (sys_message env_ok 2))"
proof -
  have 0: "CHR ''/'' \<notin> set ''photo''" by simp
  have 1: "UPLOADS_DIR env_ok \<in> set (dirs world_dirs) \<and> \<not> fault env_ok (Suc (Suc (tick world_dirs)))"
    by (simp add: world_dirs_def env_ok_def UPLOADS_DIR_def)
  have 2: "UPLOADS_DIR env_ok \<notin> set (dirs world_empty)"
    by (simp add: world_empty_def env_ok_def UPLOADS_DIR_def)
  have 3: "Suc (Suc (tick world_empty)) = 2" by (simp add: world_empty_def)
  from C8_payload_not_validated[OF match_garbage 0, of env_ok world_dirs]
       C8_payload_not_validated[OF match_garbage 0, of env_ok world_empty]
       0 1 2 3 match_garbage
  show ?thesis by auto
qed

text \<open>
  C9. When the input matches the pattern and the mime type (the first group) has no
  \<^verbatim>\<open>/\<close>, the decoder does not fail: provided the uploads directory is there and the
  write goes through, the file is written under a name that ends with \<^verbatim>\<open>.undefined\<close>,
  and the reference to it is returned. The prefix of the file name is one of the
  program's, which hold no \<^verbatim>\<open>/\<close>.
\<close>

theorem C9_no_slash:
  assumes "match_data_uri s = Some (mimeType, base64Data)" and "CHR ''/'' \<notin> set mimeType"
    and "UPLOADS_DIR e \<in> set (dirs w)" and "\<not> fault e (Suc (Suc (tick w)))"
    and "CHR ''/'' \<notin> set prefix"
  shows "\<exists>name w'. saveBase64Image e (Some (JStr s)) prefix w = (Inr (''/uploads/'' @ name), w') \<and>
           endsWith name ''.undefined'' \<and>
           upload_file e w' name = Some (base64 e base64Data)"
proof -
  have ext: "second (split_on CHR ''/'' mimeType) = None"
    using assms(2) by (rule second_split_on_none)
  let ?name = "file_name prefix (clock e (tick w)) (random e (Suc (tick w)) mod 10000) None"
  have "endsWith ?name ''.undefined''"
    unfolding file_name_undefined by (rule endsWith_append)
  then show ?thesis
    unfolding sbi_match[OF assms(1) assms(3) assms(4) assms(5)] ext
    by (simp add: upload_file_def update_conv')
qed

theorem C9_no_slash_witness:
  "match_data_uri ''data:foo;base64,AAAA'' = Some (''foo'', ''AAAA'') \<and>
   CHR ''/'' \<notin> set ''foo'' \<and> UPLOADS_DIR env_ok \<in> set (dirs world_dirs) \<and>
   \<not> fault env_ok (Suc (Suc (tick world_dirs))) \<and> CHR ''/'' \<notin> set ''ownerSign'' \<and>
   fst (saveBase64Image env_ok (Some (JStr ''data:foo;base64,AAAA'')) ''ownerSign'' world_dirs) =
     Inr ''/uploads/ownerSign-1000-7.undefined'' \<and>
   (\<exists>name w'. saveBase64Image env_ok (Some (JStr ''data:foo;base64,AAAA'')) ''ownerSign'' world_dirs =
       (Inr (''/uploads/'' @ name), w') \<and> endsWith name ''.undefined'' \<and>
       upload_file env_ok w' name = Some (base64 env_ok ''AAAA''))"
proof -
  have 1: "CHR ''/'' \<notin> set ''foo''" by simp
  have 2: "UPLOADS_DIR env_ok \<in> set (dirs world_dirs)"
    by (simp add: world_dirs_def env_ok_def UPLOADS_DIR_def)
  have 3: "\<not> fault env_ok (Suc (Suc (tick world_dirs)))" by (simp add: env_ok_def)
  have 5: "CHR ''/'' \<notin> set ''ownerSign''" by simp
  have 4: "fst (saveBase64Image env_ok (Some (JStr ''data:foo;base64,AAAA'')) ''ownerSign'' world_dirs) =
     Inr ''/uploads/ownerSign-1000-7.undefined''"
    by (simp add: env_ok_def world_dirs_def handler_eval io_eval match_eval)
  from C9_no_slash[OF match_foo 1 2 3 5] match_foo 1 2 3 5 4 show ?thesis by simp
qed

text \<open>
  C10, as the code has it. Any falsy \<^verbatim>\<open>location\<close> of a submission (absent, null, the
  empty string, a zero, false) is stored as null in the created record; a truthy one is
  stored as \<^verbatim>\<open>JSON.stringify\<close> prints it. A string, a boolean and a finite number other
  than zero are printed as they are; an array and an object are printed element by
  element; a number that is not finite is printed as null, and a zero of either sign as
  zero.
\<close>

theorem C10_location:
  assumes "post_reports e s w = (\<lparr>code = 201, body = JObj [(''reportId'', JStr rid)]\<rparr>, w')"
    and "CHR ''/'' \<notin> set rid"
  shows "stored_field e w' rid ''location'' =
           Some (case location s of None \<Rightarrow> JNull | Some v \<Rightarrow> if truthy v then printed v else JNull) \<and>
         falsy None \<and> falsy (Some JNull) \<and> falsy (Some (JStr [])) \<and> falsy (Some (JNum plus_zero)) \<and>
         falsy (Some (JNum minus_zero)) \<and> falsy (Some (JBool False)) \<and>
         (\<forall>str. printed (JStr str) = JStr str) \<and> (\<forall>b. printed (JBool b) = JBool b) \<and>
         (\<forall>d. is_finite d \<and> \<not> is_zero d \<longrightarrow> printed (JNum d) = JNum d) \<and>
         (\<forall>d. \<not> is_finite d \<longrightarrow> printed (JNum d) = JNull) \<and>
         (\<forall>d. is_zero d \<longrightarrow> printed (JNum d) = JNum plus_zero) \<and>
         (\<forall>xs. printed (JArr xs) = JArr (map printed xs)) \<and>
         (\<forall>ps. printed (JObj ps) = JObj (map (map_prod id printed) ps))"
proof -
  from created_location[OF assms]
  have "stored_field e w' rid ''location'' = Some (printed (or_null (location s)))" .
  moreover have "printed (or_null (location s)) =
      (case location s of None \<Rightarrow> JNull | Some v \<Rightarrow> if truthy v then printed v else JNull)"
    by (cases "location s") auto
  moreover have "\<forall>d. is_zero d \<longrightarrow> is_finite d" by (simp add: is_zero_def is_finite_def)
  ultimately show ?thesis by (auto simp: double_eval)
qed

text \<open>
  Where the specification's sentence C10 fails: the \<^verbatim>\<open>location\<close> is the number that
  \<^verbatim>\<open>1e400\<close> is read as, which is truthy; the report is created and its \<^verbatim>\<open>location\<close>
  is stored as null, not as given.
\<close>

theorem C10_counterexample:
  "location sub_infinite = Some (JNum infinity) \<and> truthy (JNum infinity) \<and>
   fst (post_reports env_ok sub_infinite world_empty) =
     \<lparr>code = 201, body = JObj [(''reportId'', JStr ''id-14'')]\<rparr> \<and>
   stored_field env_ok (snd (post_reports env_ok sub_infinite world_empty)) ''id-14'' ''location'' =
     Some JNull \<and>
   stored_field env_ok (snd (post_reports env_ok sub_infinite world_empty)) ''id-14'' ''location'' \<noteq>
     location sub_infinite"
proof -
  have 1: "location sub_infinite = Some (JNum infinity)" by (simp add: sub_infinite_def)
  have 2: "truthy (JNum infinity)" by (simp add: double_eval)
  from 1 2 infinite_created show ?thesis by simp
qed

theorem C10_location_witness:
  "fst (post_reports env_ok sub_ok world_empty) =
     \<lparr>code = 201, body = JObj [(''reportId'', JStr ''id-14'')]\<rparr> \<and>
   CHR ''/'' \<notin> set ''id-14'' \<and>
   location sub_ok = Some (JNum plus_zero) \<and>
   stored_field env_ok (snd (post_reports env_ok sub_ok world_empty)) ''id-14'' ''location'' = Some JNull \<and>
   is_finite one \<and> \<not> is_zero one \<and> printed (JNum one) = JNum one \<and>
   \<not> is_finite infinity \<and> printed (JNum infinity) = JNull \<and>
   is_zero minus_zero \<and> printed (JNum minus_zero) = JNum plus_zero"
proof -
  have eq: "post_reports env_ok sub_ok world_empty =
     (\<lparr>code = 201, body = JObj [(''reportId'', JStr ''id-14'')]\<rparr>,
      snd (post_reports env_ok sub_ok world_empty))"
    using sub_ok_created by (simp add: prod_eq_iff)
  have ns: "CHR ''/'' \<notin> set ''id-14''" by simp
  have d: "is_finite one \<and> \<not> is_zero one \<and> \<not> is_finite infinity \<and> is_zero minus_zero"
    by (simp add: double_eval)
  note T = C10_location[OF eq ns]
  from T have 1: "stored_field env_ok (snd (post_reports env_ok sub_ok world_empty)) ''id-14'' ''location'' =
      Some JNull" by (simp add: sub_ok_def double_eval)
  from T d have 2: "printed (JNum one) = JNum one" by blast
  from T d have 3: "printed (JNum infinity) = JNull" by blast
  from T d have 4: "printed (JNum minus_zero) = JNum plus_zero" by blast
  from sub_ok_created ns 1 2 3 4 d show ?thesis by (simp add: sub_ok_def)
qed

end
